theory Spec2Isabelle
  imports Main "HOL-Library.Char_ord" "HOL-Library.List_Lexorder" "HOL-Library.Sublist"
begin

section \<open>The migration engine of internal/database/migrations.go\<close>

text \<open>
  The engine reads a directory of SQL scripts, applies the pending ones to a PostgreSQL
  database, records them in the table \<open>schema_migrations\<close>, verifies recorded checksums and
  rolls scripts back. Two collaborators are outside the source and are parameters of the
  model:
  \<^item> \<open>cs\<close>, the content hash (\<open>calculateChecksum\<close> is SHA-256 in hexadecimal);
  \<^item> \<open>ex\<close>, the effect of running the text of a script inside a transaction: \<open>None\<close>
    when the statement fails, otherwise the database the transaction then sees.

  Strings are byte lists and \<open><\<close> on them is the bytewise lexicographic order, as Go's
  string comparison is; \<open>ORDER BY version\<close> is taken in the same order.  Failures of the
  connection itself (\<open>Begin\<close>, \<open>Commit\<close>, the transport of a query) and the width limits
  of the columns are not modelled; a statement fails only for a reason visible in the
  state: the script is rejected, the table is missing, the primary key is violated, or a
  NULL is scanned into a Go string.  The directory does not change during a call.  The
  log lines are not modelled; the slices \<open>Checksum[:16]\<close> in them are in range because a
  SHA-256 digest has 64 hexadecimal characters.
\<close>

subsection \<open>Package strings\<close>

definition HasSuffix :: "string \<Rightarrow> string \<Rightarrow> bool" where
  "HasSuffix s suf = suffix suf s"

definition TrimSuffix :: "string \<Rightarrow> string \<Rightarrow> string" where
  "TrimSuffix s suf = (if HasSuffix s suf then take (length s - length suf) s else s)"

fun Contains :: "string \<Rightarrow> string \<Rightarrow> bool" where
  "Contains [] sub = (sub = [])"
| "Contains (c # s) sub = (prefix sub (c # s) \<or> Contains s sub)"

subsection \<open>Data\<close>

record Migration =
  Version :: string
  Filename :: string
  SQLContent :: string
  Checksum :: string

text \<open>
  The migrations directory as the two calls of package os see it: \<open>ReadDir\<close> gives the
  entries (name, is-directory flag) in directory order or fails; \<open>ReadFile\<close> gives the
  bytes of the file of that name in the directory or fails.
\<close>

record directory =
  ReadDir :: "(string \<times> bool) list option"
  ReadFile :: "string \<Rightarrow> string option"

text \<open>
  A row of \<open>schema_migrations\<close> is its version (the primary key) and its nullable
  checksum; \<open>executed_at\<close> is assigned by the server and never read by the engine. The
  table may be absent. Everything else in the database is the opaque part \<open>objects\<close>.
\<close>

type_synonym row = "string \<times> string option"

record 's database =
  schema_migrations :: "row list option"
  objects :: 's

type_synonym 's sql_exec = "string \<Rightarrow> 's database \<Rightarrow> 's database option"

datatype pg_error = StatementFailed | UndefinedTable | UniqueViolation | NullScan

datatype fs_error = ReadDirFailed | ReadFileFailed string

datatype exec_error = MigrationSQLFailed | RecordFailed pg_error

datatype integrity_error =
    QueryFailed pg_error
  | ScanFailed pg_error
  | NotInDirectory string
  | ChecksumMismatch string

datatype error =
    LoadFilesFailed fs_error
  | GetExecutedFailed pg_error
  | ExecuteMigrationFailed string exec_error
  | IntegrityFailed integrity_error
  | ReadRollbackFileFailed string
  | RollbackSQLFailed
  | RemoveTrackingFailed pg_error

definition legacy :: string where
  "legacy = ''legacy_migration_no_checksum_available''"

subsection \<open>Transactions and the statements the engine issues itself\<close>

text \<open>
  A transaction keeps the database it started from and the database it has built so far:
  \<open>Commit\<close> publishes the second, \<open>Rollback\<close> (the deferred \<open>tx.Rollback\<close> that runs on
  every return before a commit) restores the first.
\<close>

record 's tx =
  base :: "'s database"
  cur :: "'s database"

definition Begin :: "'s database \<Rightarrow> 's tx" where
  "Begin d = \<lparr>base = d, cur = d\<rparr>"

definition Commit :: "'s tx \<Rightarrow> 's database" where
  "Commit t = cur t"

definition Rollback :: "'s tx \<Rightarrow> 's database" where
  "Rollback t = base t"

definition tx_exec :: "'s sql_exec \<Rightarrow> string \<Rightarrow> 's tx \<Rightarrow> pg_error + 's tx" where
  "tx_exec ex sql t =
     (case ex sql (cur t) of None \<Rightarrow> Inl StatementFailed | Some d \<Rightarrow> Inr (t\<lparr>cur := d\<rparr>))"

text \<open>\<open>INSERT INTO schema_migrations (version, checksum) VALUES ($1, $2)\<close>\<close>

definition insert_row :: "string \<Rightarrow> string \<Rightarrow> 's database \<Rightarrow> pg_error + 's database" where
  "insert_row v c d =
     (case schema_migrations d of
        None \<Rightarrow> Inl UndefinedTable
      | Some rows \<Rightarrow>
          if v \<in> set (map fst rows) then Inl UniqueViolation
          else Inr (d\<lparr>schema_migrations := Some (rows @ [(v, Some c)])\<rparr>))"

text \<open>\<open>DELETE FROM schema_migrations WHERE version = $1\<close>\<close>

definition delete_row :: "string \<Rightarrow> 's database \<Rightarrow> pg_error + 's database" where
  "delete_row v d =
     (case schema_migrations d of
        None \<Rightarrow> Inl UndefinedTable
      | Some rows \<Rightarrow> Inr (d\<lparr>schema_migrations := Some (filter (\<lambda>r. fst r \<noteq> v) rows)\<rparr>))"

definition tx_insert :: "string \<Rightarrow> string \<Rightarrow> 's tx \<Rightarrow> pg_error + 's tx" where
  "tx_insert v c t =
     (case insert_row v c (cur t) of Inl e \<Rightarrow> Inl e | Inr d \<Rightarrow> Inr (t\<lparr>cur := d\<rparr>))"

definition tx_delete :: "string \<Rightarrow> 's tx \<Rightarrow> pg_error + 's tx" where
  "tx_delete v t =
     (case delete_row v (cur t) of Inl e \<Rightarrow> Inl e | Inr d \<Rightarrow> Inr (t\<lparr>cur := d\<rparr>))"

text \<open>
  \<open>createMigrationsTable\<close>: \<open>CREATE TABLE IF NOT EXISTS\<close>, then the index and the
  \<open>ADD COLUMN IF NOT EXISTS\<close> (neither changes a row), then the backfill of NULL
  checksums with the legacy sentinel.
\<close>

definition backfill :: "row \<Rightarrow> row" where
  "backfill r = (case snd r of None \<Rightarrow> (fst r, Some legacy) | Some c \<Rightarrow> r)"

definition createMigrationsTable :: "'s database \<Rightarrow> 's database" where
  "createMigrationsTable d =
     (let rows = (case schema_migrations d of None \<Rightarrow> [] | Some rs \<Rightarrow> rs)
      in d\<lparr>schema_migrations := Some (map backfill rows)\<rparr>)"

subsection \<open>loadMigrationFiles\<close>

fun loadEntries ::
  "(string \<Rightarrow> string) \<Rightarrow> (string \<Rightarrow> string option) \<Rightarrow> (string \<times> bool) list
     \<Rightarrow> fs_error + Migration list" where
  "loadEntries cs rd [] = Inr []"
| "loadEntries cs rd ((name, isdir) # es) =
     (if isdir \<or> \<not> HasSuffix name ''.sql'' then loadEntries cs rd es
      else if Contains name ''_down_'' then loadEntries cs rd es
      else (case rd name of
              None \<Rightarrow> Inl (ReadFileFailed name)
            | Some content \<Rightarrow>
                (case loadEntries cs rd es of
                   Inl e \<Rightarrow> Inl e
                 | Inr ms \<Rightarrow>
                     Inr (\<lparr>Version = TrimSuffix name ''.sql'', Filename = name,
                           SQLContent = content, Checksum = cs content\<rparr> # ms))))"

text \<open>
  \<open>sort.Slice\<close> with \<open>Version i < Version j\<close>. The versions of one directory are pairwise
  different (file names are), so the result is the one ascending arrangement whatever the
  sorting algorithm; it is computed here by insertion sort.
\<close>

definition loadMigrationFiles ::
  "(string \<Rightarrow> string) \<Rightarrow> directory \<Rightarrow> fs_error + Migration list" where
  "loadMigrationFiles cs dir =
     (case ReadDir dir of
        None \<Rightarrow> Inl ReadDirFailed
      | Some es \<Rightarrow>
          (case loadEntries cs (ReadFile dir) es of
             Inl e \<Rightarrow> Inl e
           | Inr ms \<Rightarrow> Inr (sort_key Version ms)))"

subsection \<open>The ledger reads\<close>

text \<open>
  \<open>getExecutedMigrations\<close> builds a \<open>map[string]bool\<close> with the value \<open>true\<close> at every
  version of the table. The engine only tests membership, tests emptiness and takes the
  greatest key, so the map is represented by the list of its keys.
\<close>

definition getExecutedMigrations :: "'s database \<Rightarrow> pg_error + string list" where
  "getExecutedMigrations d =
     (case schema_migrations d of
        None \<Rightarrow> Inl UndefinedTable
      | Some rows \<Rightarrow> Inr (map fst rows))"

definition isMigrationExecuted :: "string \<Rightarrow> string list \<Rightarrow> bool" where
  "isMigrationExecuted version executed = (version \<in> set executed)"

subsection \<open>executeMigration and the apply loop\<close>

definition executeMigration ::
  "'s sql_exec \<Rightarrow> Migration \<Rightarrow> 's database \<Rightarrow> 's database \<times> exec_error option" where
  "executeMigration ex m d =
     (let t = Begin d in
      case tx_exec ex (SQLContent m) t of
        Inl e \<Rightarrow> (Rollback t, Some MigrationSQLFailed)
      | Inr t1 \<Rightarrow>
          (case tx_insert (Version m) (Checksum m) t1 of
             Inl e \<Rightarrow> (Rollback t1, Some (RecordFailed e))
           | Inr t2 \<Rightarrow> (Commit t2, None)))"

text \<open>
  The loop of \<open>RunMigrations\<close> over the sorted catalog. Besides the database and the
  error it returns the migrations it called \<open>executeMigration\<close> on, in order; the length
  of that list is \<open>pendingCount\<close>.
\<close>

fun runPending ::
  "'s sql_exec \<Rightarrow> string list \<Rightarrow> Migration list \<Rightarrow> 's database
     \<Rightarrow> 's database \<times> Migration list \<times> error option" where
  "runPending ex executed [] d = (d, [], None)"
| "runPending ex executed (m # ms) d =
     (if \<not> isMigrationExecuted (Version m) executed then
        (case executeMigration ex m d of
           (d', Some e) \<Rightarrow> (d', [m], Some (ExecuteMigrationFailed (Version m) e))
         | (d', None) \<Rightarrow>
             (case runPending ex executed ms d' of
                (d'', att, r) \<Rightarrow> (d'', m # att, r)))
      else runPending ex executed ms d)"

subsection \<open>verifyMigrationIntegrity\<close>

text \<open>\<open>rows.Scan(&em.Version, &em.Checksum)\<close>: a NULL checksum cannot be scanned.\<close>

fun scanRows :: "row list \<Rightarrow> pg_error + (string \<times> string) list" where
  "scanRows [] = Inr []"
| "scanRows ((v, None) # rs) = Inl NullScan"
| "scanRows ((v, Some c) # rs) =
     (case scanRows rs of Inl e \<Rightarrow> Inl e | Inr xs \<Rightarrow> Inr ((v, c) # xs))"

text \<open>The inner loop: the first catalog entry with that version.\<close>

fun findMigration :: "Migration list \<Rightarrow> string \<Rightarrow> Migration option" where
  "findMigration [] v = None"
| "findMigration (mig # migs) v = (if Version mig = v then Some mig else findMigration migs v)"

fun verifyRows :: "Migration list \<Rightarrow> (string \<times> string) list \<Rightarrow> integrity_error + unit" where
  "verifyRows migrations [] = Inr ()"
| "verifyRows migrations ((v, c) # rest) =
     (case findMigration migrations v of
        None \<Rightarrow> Inl (NotInDirectory v)
      | Some currentMigration \<Rightarrow>
          if c = legacy then verifyRows migrations rest
          else if Checksum currentMigration \<noteq> c then Inl (ChecksumMismatch v)
          else verifyRows migrations rest)"

text \<open>\<open>SELECT version, checksum FROM schema_migrations ORDER BY version\<close>, then the checks.\<close>

definition verifyMigrationIntegrity ::
  "Migration list \<Rightarrow> 's database \<Rightarrow> integrity_error + unit" where
  "verifyMigrationIntegrity migrations d =
     (case schema_migrations d of
        None \<Rightarrow> Inl (QueryFailed UndefinedTable)
      | Some rows \<Rightarrow>
          (case scanRows (sort_key fst rows) of
             Inl e \<Rightarrow> Inl (ScanFailed e)
           | Inr executedMigrations \<Rightarrow> verifyRows migrations executedMigrations))"

subsection \<open>RunMigrations\<close>

definition RunMigrations ::
  "(string \<Rightarrow> string) \<Rightarrow> 's sql_exec \<Rightarrow> directory \<Rightarrow> 's database
     \<Rightarrow> 's database \<times> Migration list \<times> error option" where
  "RunMigrations cs ex dir d0 =
     (let d = createMigrationsTable d0 in
      case loadMigrationFiles cs dir of
        Inl e \<Rightarrow> (d, [], Some (LoadFilesFailed e))
      | Inr migrations \<Rightarrow>
          (case getExecutedMigrations d of
             Inl e \<Rightarrow> (d, [], Some (GetExecutedFailed e))
           | Inr executedMigrations \<Rightarrow>
               (case runPending ex executedMigrations migrations d of
                  (d', att, Some e) \<Rightarrow> (d', att, Some e)
                | (d', att, None) \<Rightarrow>
                    (case verifyMigrationIntegrity migrations d' of
                       Inl e \<Rightarrow> (d', att, Some (IntegrityFailed e))
                     | Inr u \<Rightarrow> (d', att, None)))))"

subsection \<open>Rollback\<close>

text \<open>
  The resolution of the down script, written twice in the source (in
  \<open>RollbackLastMigration\<close> and in \<open>RunDownMigrations\<close>) with the same text: the three
  seed versions by name, otherwise the first directory entry whose name contains both
  \<open>_down_\<close> and the version, otherwise \<open><version>_down.sql\<close>.
\<close>

fun scanDown :: "(string \<times> bool) list \<Rightarrow> string \<Rightarrow> string" where
  "scanDown [] v = ''''"
| "scanDown ((name, isdir) # fs) v =
     (if Contains name ''_down_'' \<and> Contains name v then name else scanDown fs v)"

definition downFilename :: "directory \<Rightarrow> string \<Rightarrow> string" where
  "downFilename dir v =
     (if v = ''001_create_schema_migrations_table''
        then ''001_down_create_schema_migrations_table.sql''
      else if v = ''002_create_users_table'' then ''002_down_create_users_table.sql''
      else if v = ''003_create_indexes'' then ''003_down_create_indexes.sql''
      else (let found = (case ReadDir dir of None \<Rightarrow> '''' | Some fs \<Rightarrow> scanDown fs v)
            in if found = '''' then v @ ''_down.sql'' else found))"

text \<open>
  Reading the down script and the transaction around it: execute the script, delete the
  row, commit.
\<close>

definition rollbackOne ::
  "'s sql_exec \<Rightarrow> directory \<Rightarrow> string \<Rightarrow> 's database \<Rightarrow> 's database \<times> error option" where
  "rollbackOne ex dir v d =
     (let downFile = downFilename dir v in
      case ReadFile dir downFile of
        None \<Rightarrow> (d, Some (ReadRollbackFileFailed downFile))
      | Some content \<Rightarrow>
          (let t = Begin d in
           case tx_exec ex content t of
             Inl e \<Rightarrow> (Rollback t, Some RollbackSQLFailed)
           | Inr t1 \<Rightarrow>
               (case tx_delete v t1 of
                  Inl e \<Rightarrow> (Rollback t1, Some (RemoveTrackingFailed e))
                | Inr t2 \<Rightarrow> (Commit t2, None))))"

text \<open>
  \<open>for version := range executedMigrations { if version > lastMigration { ... } }\<close>
  starting from the empty string.
\<close>

definition lastMigration :: "string list \<Rightarrow> string" where
  "lastMigration executed = foldl (\<lambda>acc version. if version > acc then version else acc) '''' executed"

definition RollbackLastMigration ::
  "'s sql_exec \<Rightarrow> directory \<Rightarrow> 's database \<Rightarrow> 's database \<times> error option" where
  "RollbackLastMigration ex dir d =
     (case getExecutedMigrations d of
        Inl e \<Rightarrow> (d, Some (GetExecutedFailed e))
      | Inr executedMigrations \<Rightarrow>
          if length executedMigrations = 0 then (d, None)
          else rollbackOne ex dir (lastMigration executedMigrations) d)"

text \<open>
  The loop of \<open>RunDownMigrations\<close> over the catalog in descending order. It returns the
  versions it rolled back, in order; the length of that list is \<open>rollbackCount\<close>.
\<close>

fun rollbackLoop ::
  "'s sql_exec \<Rightarrow> directory \<Rightarrow> string list \<Rightarrow> string \<Rightarrow> Migration list \<Rightarrow> 's database
     \<Rightarrow> 's database \<times> string list \<times> error option" where
  "rollbackLoop ex dir executed target [] d = (d, [], None)"
| "rollbackLoop ex dir executed target (m # ms) d =
     (if \<not> Contains (Version m) ''_down_'' then
        (if Version m \<in> set executed \<and> Version m > target then
           (case rollbackOne ex dir (Version m) d of
              (d', Some e) \<Rightarrow> (d', [], Some e)
            | (d', None) \<Rightarrow>
                (case rollbackLoop ex dir executed target ms d' of
                   (d'', rolled, r) \<Rightarrow> (d'', Version m # rolled, r)))
         else rollbackLoop ex dir executed target ms d)
      else rollbackLoop ex dir executed target ms d)"

text \<open>
  The second \<open>sort.Slice\<close>, with \<open>Version i > Version j\<close>, on pairwise different
  versions gives the ascending arrangement reversed.
\<close>

definition RunDownMigrations ::
  "(string \<Rightarrow> string) \<Rightarrow> 's sql_exec \<Rightarrow> directory \<Rightarrow> string \<Rightarrow> 's database
     \<Rightarrow> 's database \<times> string list \<times> error option" where
  "RunDownMigrations cs ex dir targetVersion d =
     (case getExecutedMigrations d of
        Inl e \<Rightarrow> (d, [], Some (GetExecutedFailed e))
      | Inr executedMigrations \<Rightarrow>
          (case loadMigrationFiles cs dir of
             Inl e \<Rightarrow> (d, [], Some (LoadFilesFailed e))
           | Inr migrationFiles \<Rightarrow>
               rollbackLoop ex dir executedMigrations targetVersion (rev migrationFiles) d))"

section \<open>Vocabulary of the properties\<close>

text \<open>
  The directory entries that \<open>loadMigrationFiles\<close> turns into catalog entries: not a
  directory, a name ending in \<open>.sql\<close> and without \<open>_down_\<close>.
\<close>

definition forward_entry :: "string \<times> bool \<Rightarrow> bool" where
  "forward_entry e = (\<not> snd e \<and> HasSuffix (fst e) ''.sql'' \<and> \<not> Contains (fst e) ''_down_'')"

text \<open>
  A script executor preserves the ledger when no script that succeeds changes the table
  \<open>schema_migrations\<close>: the table is written by the engine only.
\<close>

definition preserves_ledger :: "'s sql_exec \<Rightarrow> bool" where
  "preserves_ledger ex = (\<forall>sql d d'. ex sql d = Some d' \<longrightarrow> schema_migrations d' = schema_migrations d)"

text \<open>
  The rows of the ledger (none when the table is absent) and their versions.
\<close>

definition ledger :: "'s database \<Rightarrow> row list" where
  "ledger d = (case schema_migrations d of None \<Rightarrow> [] | Some rs \<Rightarrow> rs)"

definition applied_versions :: "'s database \<Rightarrow> string list" where
  "applied_versions d = map fst (ledger d)"

text \<open>
  The catalog entries whose version is not among the executed ones, in catalog order.
\<close>

definition pending :: "string list \<Rightarrow> Migration list \<Rightarrow> Migration list" where
  "pending executed catalog = filter (\<lambda>m. Version m \<notin> set executed) catalog"

text \<open>
  The rows that applying the given migrations inserts.
\<close>

definition applied_rows :: "Migration list \<Rightarrow> row list" where
  "applied_rows ms = map (\<lambda>m. (Version m, Some (Checksum m))) ms"

text \<open>
  The check of \<open>verifyMigrationIntegrity\<close> on one scanned ledger row, as the specification
  words it: the row is in order when the catalog has a script of its version and the
  recorded checksum is the legacy sentinel or equals the checksum of that script;
  otherwise the failure is the orphaned entry or the checksum mismatch.
\<close>

definition row_ok :: "Migration list \<Rightarrow> string \<times> string \<Rightarrow> bool" where
  "row_ok catalog r =
     (case findMigration catalog (fst r) of
        None \<Rightarrow> False
      | Some mig \<Rightarrow> snd r = legacy \<or> Checksum mig = snd r)"

definition row_error :: "Migration list \<Rightarrow> string \<times> string \<Rightarrow> integrity_error" where
  "row_error catalog r =
     (case findMigration catalog (fst r) of
        None \<Rightarrow> NotInDirectory (fst r)
      | Some mig \<Rightarrow> ChecksumMismatch (fst r))"

text \<open>
  The versions \<open>RunDownMigrations\<close> is to roll back: the catalog in descending order,
  kept where the version is executed and greater than the target.
\<close>

definition candidates :: "string list \<Rightarrow> string \<Rightarrow> Migration list \<Rightarrow> string list" where
  "candidates executed target catalog =
     map Version (filter (\<lambda>m. Version m \<in> set executed \<and> Version m > target) (rev catalog))"

section \<open>Sample inputs\<close>

text \<open>
  A stand-in for the hash that pads the content to 64 characters, an executor that rejects
  the scripts starting with \<open>FAIL\<close> and appends every other script to the list of
  objects, a directory with three forward scripts, one down script, one file that is not
  a script and one subdirectory, and a database where the first script is applied.
  Directory entries are listed in the order of their names, as \<open>os.ReadDir\<close> returns them.
\<close>

definition demo_cs :: "string \<Rightarrow> string" where
  "demo_cs s = s @ replicate (64 - length s) (CHR ''0'')"

definition demo_ex :: "string list sql_exec" where
  "demo_ex sql d = (if prefix ''FAIL'' sql then None else Some (d\<lparr>objects := objects d @ [sql]\<rparr>))"

definition demo_dir :: directory where
  "demo_dir =
     \<lparr>ReadDir = Some [(''001_init.sql'', False), (''002_down_users.sql'', False),
                      (''002_users.sql'', False), (''003_index.sql'', False),
                      (''README.md'', False), (''old.sql'', True)],
      ReadFile = (\<lambda>n. if n = ''001_init.sql'' then Some ''A''
                       else if n = ''002_users.sql'' then Some ''B''
                       else if n = ''003_index.sql'' then Some ''C''
                       else if n = ''002_down_users.sql'' then Some ''undo B''
                       else None)\<rparr>"

definition demo_db :: "string list database" where
  "demo_db = \<lparr>schema_migrations = Some [(''001_init'', Some (demo_cs ''A''))], objects = [''A'']\<rparr>"

text \<open>
  The directory of the atomic-failure scenario: three forward scripts, the second of which
  the executor rejects; and a database without the ledger table.
\<close>

definition demo_dir_failing :: directory where
  "demo_dir_failing =
     \<lparr>ReadDir = Some [(''001_init.sql'', False), (''002_users.sql'', False), (''003_index.sql'', False)],
      ReadFile = (\<lambda>n. if n = ''001_init.sql'' then Some ''A''
                       else if n = ''002_users.sql'' then Some ''FAIL B''
                       else if n = ''003_index.sql'' then Some ''C''
                       else None)\<rparr>"

definition demo_db_empty :: "string list database" where
  "demo_db_empty = \<lparr>schema_migrations = None, objects = []\<rparr>"

text \<open>
  The tamper scenario: the first script, applied with content \<open>A\<close>, now reads \<open>A2\<close>;
  and a database where the first script was recorded with yet another checksum.
\<close>

definition demo_dir_tampered :: directory where
  "demo_dir_tampered =
     \<lparr>ReadDir = Some [(''001_init.sql'', False)],
      ReadFile = (\<lambda>n. if n = ''001_init.sql'' then Some ''A2'' else None)\<rparr>"

definition demo_db_other :: "string list database" where
  "demo_db_other = \<lparr>schema_migrations = Some [(''001_init'', Some (demo_cs ''Z''))], objects = [''Z'']\<rparr>"

text \<open>
  A database whose ledger has, besides the row of the first script, a row of a version
  that has no script in the directory.
\<close>

definition demo_db_two_offenders :: "string list database" where
  "demo_db_two_offenders =
     \<lparr>schema_migrations = Some [(''001_init'', Some (demo_cs ''A'')), (''000_gone'', Some (demo_cs ''G''))],
      objects = [''G'', ''A'']\<rparr>"

text \<open>
  The three seed migrations of the repository with their down scripts, all applied.
\<close>

definition demo_seed_dir :: directory where
  "demo_seed_dir =
     \<lparr>ReadDir = Some [(''001_create_schema_migrations_table.sql'', False),
                      (''001_down_create_schema_migrations_table.sql'', False),
                      (''002_create_users_table.sql'', False),
                      (''002_down_create_users_table.sql'', False),
                      (''003_create_indexes.sql'', False),
                      (''003_down_create_indexes.sql'', False)],
      ReadFile = (\<lambda>n. if n = ''001_create_schema_migrations_table.sql'' then Some ''A''
                       else if n = ''001_down_create_schema_migrations_table.sql'' then Some ''undo A''
                       else if n = ''002_create_users_table.sql'' then Some ''B''
                       else if n = ''002_down_create_users_table.sql'' then Some ''undo B''
                       else if n = ''003_create_indexes.sql'' then Some ''C''
                       else if n = ''003_down_create_indexes.sql'' then Some ''undo C''
                       else None)\<rparr>"

definition demo_seed_db :: "string list database" where
  "demo_seed_db =
     \<lparr>schema_migrations = Some [(''001_create_schema_migrations_table'', Some (demo_cs ''A'')),
                                (''002_create_users_table'', Some (demo_cs ''B'')),
                                (''003_create_indexes'', Some (demo_cs ''C''))],
      objects = [''A'', ''B'', ''C'']\<rparr>"

text \<open>
  An executor whose script \<open>undo A\<close> drops the ledger table, as the down script of the
  first seed migration does; a database where only that migration is applied; and the
  seed directory with a down script of the second migration that the executor rejects.
\<close>

definition demo_ex_drop :: "string list sql_exec" where
  "demo_ex_drop sql d =
     (if sql = ''undo A'' then Some (d\<lparr>schema_migrations := None\<rparr>) else demo_ex sql d)"

definition demo_first_db :: "string list database" where
  "demo_first_db =
     \<lparr>schema_migrations = Some [(''001_create_schema_migrations_table'', Some (demo_cs ''A''))],
      objects = [''A'']\<rparr>"

definition demo_seed_dir_bad_down :: directory where
  "demo_seed_dir_bad_down =
     demo_seed_dir\<lparr>ReadFile := (\<lambda>n. if n = ''002_down_create_users_table.sql'' then Some ''FAIL undo B''
                                    else ReadFile demo_seed_dir n)\<rparr>"

text \<open>
  A directory from which the forward script of the second seed migration was removed
  while its down script is still there, and a database where both are applied.
\<close>

definition demo_orphan_dir :: directory where
  "demo_orphan_dir =
     \<lparr>ReadDir = Some [(''001_create_schema_migrations_table.sql'', False),
                      (''001_down_create_schema_migrations_table.sql'', False),
                      (''002_down_create_users_table.sql'', False)],
      ReadFile = (\<lambda>n. if n = ''001_create_schema_migrations_table.sql'' then Some ''A''
                       else if n = ''001_down_create_schema_migrations_table.sql'' then Some ''undo A''
                       else if n = ''002_down_create_users_table.sql'' then Some ''undo B''
                       else None)\<rparr>"

definition demo_orphan_db :: "string list database" where
  "demo_orphan_db =
     \<lparr>schema_migrations = Some [(''001_create_schema_migrations_table'', Some (demo_cs ''A'')),
                                (''002_create_users_table'', Some (demo_cs ''B''))],
      objects = [''A'', ''B'']\<rparr>"

text \<open>
  A fourth migration with its down script named by the convention of the seed
  migrations, \<open>NNN_down_description.sql\<close>, and a database where it is applied.
\<close>

definition demo_convention_dir :: directory where
  "demo_convention_dir =
     \<lparr>ReadDir = Some [(''004_add_email.sql'', False), (''004_down_add_email.sql'', False)],
      ReadFile = (\<lambda>n. if n = ''004_add_email.sql'' then Some ''D''
                       else if n = ''004_down_add_email.sql'' then Some ''undo D''
                       else None)\<rparr>"

definition demo_convention_db :: "string list database" where
  "demo_convention_db =
     \<lparr>schema_migrations = Some [(''004_add_email'', Some (demo_cs ''D''))], objects = [''D'']\<rparr>"

text \<open>
  A directory where the down script of the fourth migration has the fallback name
  \<open><version>_down.sql\<close>.
\<close>

definition demo_fallback_dir :: directory where
  "demo_fallback_dir =
     \<lparr>ReadDir = Some [(''004_add_email.sql'', False), (''004_add_email_down.sql'', False)],
      ReadFile = (\<lambda>n. if n = ''004_add_email.sql'' then Some ''D''
                       else if n = ''004_add_email_down.sql'' then Some ''undo D''
                       else None)\<rparr>"

section \<open>Auxiliary facts\<close>

subsection \<open>Strings\<close>

lemma Contains_sublist: "Contains s sub = sublist sub s"
  by (induction s) (simp_all add: sublist_Cons_right)

lemma Contains_take: "Contains (take n s) sub \<Longrightarrow> Contains s sub"
proof -
  assume "Contains (take n s) sub"
  then have "sublist sub (take n s)" by (simp add: Contains_sublist)
  moreover have "sublist (take n s) s"
    by (metis append_take_drop_id sublist_append_rightI sublist_order.order_refl)
  ultimately show ?thesis
    unfolding Contains_sublist by (rule sublist_order.order_trans)
qed

lemma TrimSuffix_append: "HasSuffix s suf \<Longrightarrow> TrimSuffix s suf @ suf = s"
  by (auto simp: HasSuffix_def TrimSuffix_def suffix_def)

lemma TrimSuffix_inj:
  "HasSuffix a suf \<Longrightarrow> HasSuffix b suf \<Longrightarrow> TrimSuffix a suf = TrimSuffix b suf \<Longrightarrow> a = b"
  by (metis TrimSuffix_append)

lemma TrimSuffix_not_Contains:
  "\<not> Contains s sub \<Longrightarrow> \<not> Contains (TrimSuffix s suf) sub"
  by (auto simp: TrimSuffix_def dest: Contains_take)

lemma TrimSuffix_append_same: "TrimSuffix (a @ suf) suf = a"
  by (simp add: TrimSuffix_def HasSuffix_def suffix_def)

lemma HasSuffix_append_same: "HasSuffix (a @ suf) suf"
  by (simp add: HasSuffix_def suffix_def)

lemma Nil_least: "([]::string) \<le> s"
  by (cases s) simp_all

subsection \<open>The catalog\<close>

lemma loadEntries_Filename:
  "loadEntries cs rd es = Inr ms \<Longrightarrow> map Filename ms = map fst (filter forward_entry es)"
  by (induction es arbitrary: ms)
     (auto simp: forward_entry_def split: if_splits option.splits sum.splits)

lemma loadEntries_fields:
  "loadEntries cs rd es = Inr ms \<Longrightarrow> m \<in> set ms \<Longrightarrow>
     Version m = TrimSuffix (Filename m) ''.sql'' \<and> rd (Filename m) = Some (SQLContent m)
     \<and> Checksum m = cs (SQLContent m)"
  by (induction es arbitrary: ms)
     (auto split: if_splits option.splits sum.splits)

lemma loadEntries_Version:
  "loadEntries cs rd es = Inr ms \<Longrightarrow>
     map Version ms = map (\<lambda>e. TrimSuffix (fst e) ''.sql'') (filter forward_entry es)"
  by (induction es arbitrary: ms)
     (auto simp: forward_entry_def split: if_splits option.splits sum.splits)

lemma loadEntries_distinct:
  assumes "loadEntries cs rd es = Inr ms" "distinct (map fst es)"
  shows "distinct (map Version ms)"
proof -
  have inj: "inj_on (\<lambda>e. TrimSuffix (fst e) ''.sql'') (set (filter forward_entry es))"
  proof (rule inj_onI)
    fix a b assume a: "a \<in> set (filter forward_entry es)" and b: "b \<in> set (filter forward_entry es)"
      and eq: "TrimSuffix (fst a) ''.sql'' = TrimSuffix (fst b) ''.sql''"
    then have "fst a = fst b" by (auto simp: forward_entry_def intro: TrimSuffix_inj)
    moreover have "inj_on fst (set es)" using assms(2) by (simp add: distinct_map)
    ultimately show "a = b" using a b by (auto dest: inj_onD)
  qed
  have "distinct (filter forward_entry es)" using assms(2) by (simp add: distinct_map)
  then show ?thesis
    unfolding loadEntries_Version [OF assms(1)] using inj by (simp add: distinct_map)
qed

lemma distinct_map_insort_key:
  "distinct (map f (insort_key f x xs)) = (f x \<notin> f ` set xs \<and> distinct (map f xs))"
  by (induction xs) (auto simp: set_insort_key)

lemma distinct_map_sort_key: "distinct (map f (sort_key f xs)) = distinct (map f xs)"
  by (induction xs) (simp_all add: distinct_map_insort_key)

lemma loadMigrationFiles_sorted:
  assumes "ReadDir dir = Some es" "distinct (map fst es)" "loadMigrationFiles cs dir = Inr catalog"
  shows "sorted_wrt (<) (map Version catalog)"
proof -
  from assms(1,3) obtain ms where ms: "loadEntries cs (ReadFile dir) es = Inr ms"
    and cat: "catalog = sort_key Version ms"
    by (auto simp: loadMigrationFiles_def split: sum.splits)
  have "distinct (map Version ms)" using ms assms(2) by (rule loadEntries_distinct)
  then have "distinct (map Version catalog)" by (simp add: cat distinct_map_sort_key)
  moreover have "sorted (map Version catalog)" by (simp add: cat)
  ultimately show ?thesis by (simp add: strict_sorted_iff)
qed

lemma loadMigrationFiles_no_down:
  assumes "loadMigrationFiles cs dir = Inr catalog" and "m \<in> set catalog"
  shows "\<not> Contains (Version m) ''_down_''"
proof -
  from assms(1) obtain es ms where es: "ReadDir dir = Some es"
    and ms: "loadEntries cs (ReadFile dir) es = Inr ms" and cat: "catalog = sort_key Version ms"
    by (auto simp: loadMigrationFiles_def split: option.splits sum.splits)
  from assms(2) cat have m: "m \<in> set ms" by simp
  then have "Filename m \<in> set (map Filename ms)" by simp
  then have "Filename m \<in> set (map fst (filter forward_entry es))"
    by (simp only: loadEntries_Filename [OF ms])
  then have "\<not> Contains (Filename m) ''_down_''" by (auto simp: forward_entry_def)
  moreover have "Version m = TrimSuffix (Filename m) ''.sql''"
    using loadEntries_fields [OF ms m] by simp
  ultimately show ?thesis by (simp add: TrimSuffix_not_Contains)
qed

lemma sorted_wrt_prefix: "prefix xs ys \<Longrightarrow> sorted_wrt P ys \<Longrightarrow> sorted_wrt P xs"
  by (auto simp: prefix_def sorted_wrt_append)


subsection \<open>The ledger table\<close>

lemma createMigrationsTable_ledger:
  "schema_migrations (createMigrationsTable d) = Some (map backfill (ledger d))"
  by (simp add: createMigrationsTable_def ledger_def split: option.splits)

lemma fst_backfill: "fst (backfill r) = fst r"
  by (simp add: backfill_def split: option.splits)

lemma backfill_idem: "backfill (backfill r) = backfill r"
  by (simp add: backfill_def split: option.splits)

lemma backfill_applied_rows: "map backfill (applied_rows ms) = applied_rows ms"
  by (simp add: applied_rows_def backfill_def)

lemma createMigrationsTable_fixed:
  "schema_migrations d = Some rows \<Longrightarrow> map backfill rows = rows \<Longrightarrow> createMigrationsTable d = d"
  by (simp add: createMigrationsTable_def)

lemma getExecutedMigrations_create:
  "getExecutedMigrations (createMigrationsTable d) = Inr (applied_versions d)"
  by (simp add: getExecutedMigrations_def createMigrationsTable_ledger applied_versions_def fst_backfill
           comp_def)

lemma preserves_ledger_demo_ex: "preserves_ledger demo_ex"
  by (auto simp: preserves_ledger_def demo_ex_def split: if_splits)

subsection \<open>One migration and the apply loop\<close>

lemma executeMigration_error_unchanged:
  "executeMigration ex m d = (d', Some e) \<Longrightarrow> d' = d"
  by (auto simp: executeMigration_def Begin_def Rollback_def Commit_def tx_exec_def tx_insert_def
           Let_def split: option.splits sum.splits)

lemma executeMigration_success:
  "executeMigration ex m d = (d', None) \<longleftrightarrow>
     (\<exists>d1 rows. ex (SQLContent m) d = Some d1 \<and> schema_migrations d1 = Some rows
        \<and> Version m \<notin> set (map fst rows)
        \<and> d' = d1\<lparr>schema_migrations := Some (rows @ [(Version m, Some (Checksum m))])\<rparr>)"
  by (auto simp: executeMigration_def Begin_def Rollback_def Commit_def tx_exec_def tx_insert_def
           insert_row_def Let_def split: option.splits sum.splits if_splits)

lemma executeMigration_ledger:
  assumes "preserves_ledger ex" "schema_migrations d = Some rows" "executeMigration ex m d = (d', None)"
  shows "schema_migrations d' = Some (rows @ applied_rows [m]) \<and> Version m \<notin> set (map fst rows)"
  using assms unfolding executeMigration_success preserves_ledger_def applied_rows_def
  by fastforce

lemma runPending_prefix:
  "runPending ex executed ms d = (d', att, r) \<Longrightarrow>
     prefix att (pending executed ms) \<and> (r = None \<longrightarrow> att = pending executed ms)"
proof (induction ms arbitrary: d d' att r)
  case Nil
  then show ?case by (simp add: pending_def)
next
  case (Cons m ms)
  show ?case
  proof (cases "isMigrationExecuted (Version m) executed")
    case True
    with Cons show ?thesis by (simp add: pending_def isMigrationExecuted_def)
  next
    case False
    obtain d1 r1 where em: "executeMigration ex m d = (d1, r1)" by (cases "executeMigration ex m d")
    show ?thesis
    proof (cases r1)
      case (Some e)
      with Cons.prems False em show ?thesis
        by (auto simp: pending_def isMigrationExecuted_def)
    next
      case None
      obtain d2 att2 r2 where rest: "runPending ex executed ms d1 = (d2, att2, r2)"
        by (cases "runPending ex executed ms d1")
      from Cons.IH [OF rest] Cons.prems False em None rest show ?thesis
        by (auto simp: pending_def isMigrationExecuted_def)
    qed
  qed
qed

lemma runPending_error_kind:
  "runPending ex executed ms d = (d', att, Some e) \<Longrightarrow>
     \<exists>m x. att \<noteq> [] \<and> last att = m \<and> e = ExecuteMigrationFailed (Version m) x
        \<and> executeMigration ex m d' = (d', Some x)"
proof (induction ms arbitrary: d d' att)
  case Nil
  then show ?case by simp
next
  case (Cons m ms)
  show ?case
  proof (cases "isMigrationExecuted (Version m) executed")
    case True
    with Cons show ?thesis by simp
  next
    case False
    obtain d1 r1 where em: "executeMigration ex m d = (d1, r1)" by (cases "executeMigration ex m d")
    show ?thesis
    proof (cases r1)
      case (Some x)
      with em have "d1 = d" by (simp add: executeMigration_error_unchanged)
      with Cons.prems False em Some show ?thesis by auto
    next
      case None
      obtain d2 att2 r2 where rest: "runPending ex executed ms d1 = (d2, att2, r2)"
        by (cases "runPending ex executed ms d1")
      with Cons.prems False em None have "r2 = Some e" "d2 = d'" "att = m # att2" by auto
      with Cons.IH [of d1 d' att2] rest show ?thesis by auto
    qed
  qed
qed

lemma runPending_ledger:
  assumes "preserves_ledger ex"
  shows "schema_migrations d = Some rows \<Longrightarrow> runPending ex executed ms d = (d', att, r) \<Longrightarrow>
     schema_migrations d' = Some (rows @ applied_rows (if r = None then att else butlast att))"
proof (induction ms arbitrary: d d' att r rows)
  case Nil
  then show ?case by (simp add: applied_rows_def)
next
  case (Cons m ms)
  show ?case
  proof (cases "isMigrationExecuted (Version m) executed")
    case True
    with Cons.prems(2) have "runPending ex executed ms d = (d', att, r)" by simp
    from Cons.IH [OF Cons.prems(1) this] show ?thesis .
  next
    case False
    obtain d1 r1 where em: "executeMigration ex m d = (d1, r1)" by (cases "executeMigration ex m d")
    show ?thesis
    proof (cases r1)
      case (Some x)
      with em have "d1 = d" by (simp add: executeMigration_error_unchanged)
      with Cons.prems(2) False em Some have "d' = d" "att = [m]" "r \<noteq> None" by auto
      with Cons.prems(1) show ?thesis by (simp add: applied_rows_def)
    next
      case None
      obtain d2 att2 r2 where rest: "runPending ex executed ms d1 = (d2, att2, r2)"
        by (cases "runPending ex executed ms d1")
      from executeMigration_ledger [OF assms Cons.prems(1)] em None
      have l1: "schema_migrations d1 = Some (rows @ applied_rows [m])" by simp
      from Cons.prems(2) False em None rest have eq: "r2 = r" "d2 = d'" "att = m # att2" by auto
      have ne: "r \<noteq> None \<Longrightarrow> att2 \<noteq> []"
        using runPending_error_kind [of ex executed ms d1 d' att2] rest eq by auto
      from Cons.IH [OF l1 rest]
      have "schema_migrations d' =
              Some ((rows @ applied_rows [m]) @ applied_rows (if r = None then att2 else butlast att2))"
        using eq by simp
      then show ?thesis using eq ne by (cases r) (simp_all add: applied_rows_def)
    qed
  qed
qed

lemma runPending_append:
  "runPending ex executed (xs @ ys) d =
     (case runPending ex executed xs d of
        (d1, a1, Some e) \<Rightarrow> (d1, a1, Some e)
      | (d1, a1, None) \<Rightarrow>
          (case runPending ex executed ys d1 of (d2, a2, r) \<Rightarrow> (d2, a1 @ a2, r)))"
  by (induction xs arbitrary: d) (auto split: prod.splits option.splits)

lemma runPending_nothing_pending:
  "\<forall>m \<in> set ms. Version m \<in> set executed \<Longrightarrow> runPending ex executed ms d = (d, [], None)"
  by (induction ms) (simp_all add: isMigrationExecuted_def)

lemma RunMigrations_unfold:
  assumes "loadMigrationFiles cs dir = Inr catalog"
    and "RunMigrations cs ex dir d = (d', att, r)"
  shows "\<exists>r0. runPending ex (applied_versions d) catalog (createMigrationsTable d) = (d', att, r0)
     \<and> (r0 = None \<longrightarrow> r = map_option IntegrityFailed
                  (case verifyMigrationIntegrity catalog d' of Inl e \<Rightarrow> Some e | Inr u \<Rightarrow> None))
     \<and> (r0 \<noteq> None \<longrightarrow> r = r0)"
proof -
  obtain d1 a1 r1 where rp: "runPending ex (applied_versions d) catalog (createMigrationsTable d) = (d1, a1, r1)"
    by (cases "runPending ex (applied_versions d) catalog (createMigrationsTable d)")
  with assms show ?thesis
    by (auto simp: RunMigrations_def getExecutedMigrations_create split: option.splits sum.splits)
qed

lemma RunMigrations_attempts_all_pending:
  assumes "loadMigrationFiles cs dir = Inr catalog"
    and "RunMigrations cs ex dir d = (d', att, r)"
    and "\<forall>w x. r \<noteq> Some (ExecuteMigrationFailed w x)"
  shows "att = pending (applied_versions d) catalog"
proof -
  from RunMigrations_unfold [OF assms(1,2)] obtain r0
    where rp: "runPending ex (applied_versions d) catalog (createMigrationsTable d) = (d', att, r0)"
      and bad: "r0 \<noteq> None \<Longrightarrow> r = r0"
    by blast
  have "r0 = None"
  proof (rule ccontr)
    assume "r0 \<noteq> None"
    then obtain e where e: "r0 = Some e" by auto
    with runPending_error_kind [of ex "applied_versions d" catalog "createMigrationsTable d" d' att e] rp
    obtain w x where "e = ExecuteMigrationFailed w x" by auto
    with bad e assms(3) show False by auto
  qed
  with runPending_prefix [OF rp] show ?thesis by simp
qed

subsection \<open>Verification\<close>

lemma scanRows_rows: "scanRows rs = Inr xs \<Longrightarrow> rs = map (\<lambda>(v, c). (v, Some c)) xs"
  by (induction rs arbitrary: xs rule: scanRows.induct) (auto split: sum.splits)

lemma scanRows_total: "\<forall>r \<in> set rs. snd r \<noteq> None \<Longrightarrow> \<exists>xs. scanRows rs = Inr xs"
  by (induction rs rule: scanRows.induct) auto

lemma verifyRows_ok: "verifyRows catalog rows = Inr () \<longleftrightarrow> list_all (row_ok catalog) rows"
  by (induction rows) (auto simp: row_ok_def split: option.splits if_splits)

lemma verifyRows_first:
  "list_all (row_ok catalog) pre \<Longrightarrow> \<not> row_ok catalog x \<Longrightarrow>
     verifyRows catalog (pre @ x # post) = Inl (row_error catalog x)"
proof (induction pre)
  case Nil
  then show ?case
    by (cases x) (auto simp: row_ok_def row_error_def split: option.splits)
next
  case (Cons p pre)
  then show ?case
    by (cases p) (auto simp: row_ok_def split: option.splits)
qed

lemma verifyRows_mismatch:
  "verifyRows catalog rows = Inl (ChecksumMismatch v) \<Longrightarrow>
     \<exists>c mig. (v, c) \<in> set rows \<and> c \<noteq> legacy \<and> findMigration catalog v = Some mig \<and> Checksum mig \<noteq> c"
proof (induction rows)
  case Nil
  then show ?case by simp
next
  case (Cons r rows)
  obtain a b where r: "r = (a, b)" by (cases r)
  show ?case
  proof (cases "verifyRows catalog rows = Inl (ChecksumMismatch v)")
    case True
    from Cons.IH [OF this] show ?thesis by auto
  next
    case False
    with Cons.prems r have "a = v \<and> b \<noteq> legacy \<and> (\<exists>mig. findMigration catalog v = Some mig \<and> Checksum mig \<noteq> b)"
      by (auto split: option.splits if_splits)
    with r show ?thesis by auto
  qed
qed

subsection \<open>Rollback\<close>

lemma rollbackOne_error_unchanged: "rollbackOne ex dir v d = (d', Some e) \<Longrightarrow> d' = d"
  by (auto simp: rollbackOne_def Let_def Begin_def Rollback_def Commit_def tx_exec_def tx_delete_def
           split: option.splits sum.splits)

lemma rollbackOne_success:
  "rollbackOne ex dir v d = (d', None) \<longleftrightarrow>
     (\<exists>content d1 rows1. ReadFile dir (downFilename dir v) = Some content \<and> ex content d = Some d1
        \<and> schema_migrations d1 = Some rows1
        \<and> d' = d1\<lparr>schema_migrations := Some (filter (\<lambda>r. fst r \<noteq> v) rows1)\<rparr>)"
  by (auto simp: rollbackOne_def Let_def Begin_def Rollback_def Commit_def tx_exec_def tx_delete_def
           delete_row_def split: option.splits sum.splits)

lemma rollbackOne_ledger:
  assumes "preserves_ledger ex" "schema_migrations d = Some rows" "rollbackOne ex dir v d = (d', None)"
  shows "schema_migrations d' = Some (filter (\<lambda>r. fst r \<noteq> v) rows)"
  using assms unfolding rollbackOne_success preserves_ledger_def by fastforce

lemma foldl_max:
  "foldl (\<lambda>acc version. if version > acc then version else acc) (a::string) xs = Max (insert a (set xs))"
proof (induction xs arbitrary: a)
  case Nil
  then show ?case by simp
next
  case (Cons x xs)
  have "(if x > a then x else a) = max a x" by (auto simp: max_def)
  then have "foldl (\<lambda>acc version. if version > acc then version else acc) a (x # xs)
               = Max (insert (max a x) (set xs))"
    using Cons.IH by simp
  also have "\<dots> = Max (insert a (set (x # xs)))"
  proof (cases "set xs = {}")
    case True
    then show ?thesis by (simp add: max.commute)
  next
    case False
    then show ?thesis
      by (simp add: Max_insert max.assoc)
  qed
  finally show ?case .
qed

lemma lastMigration_Max: "executed \<noteq> [] \<Longrightarrow> lastMigration executed = Max (set executed)"
proof -
  assume ne: "executed \<noteq> []"
  have "lastMigration executed = Max (insert [] (set executed))"
    by (simp add: lastMigration_def foldl_max)
  also have "\<dots> = max [] (Max (set executed))" using ne by (simp add: Max_insert)
  also have "\<dots> = Max (set executed)" by (simp add: max_def Nil_least)
  finally show ?thesis .
qed

lemma rollbackLoop_candidates:
  assumes "\<forall>m \<in> set ms. \<not> Contains (Version m) ''_down_''"
    and "P = (\<lambda>m. Version m \<in> set executed \<and> Version m > target)"
    and "rollbackLoop ex dir executed target ms d = (d', rolled, r)"
  shows "prefix rolled (map Version (filter P ms))
       \<and> (r = None \<longrightarrow> rolled = map Version (filter P ms))
       \<and> (r \<noteq> None \<longrightarrow>
            (\<exists>v. prefix (rolled @ [v]) (map Version (filter P ms))
               \<and> rollbackOne ex dir v d' = (d', r)))"
  using assms(1,3)
proof (induction ms arbitrary: d d' rolled r)
  case Nil
  then show ?case by simp
next
  case (Cons m ms)
  then have nodown: "\<not> Contains (Version m) ''_down_''"
    and rest: "\<forall>m \<in> set ms. \<not> Contains (Version m) ''_down_''" by simp_all
  show ?case
  proof (cases "P m")
    case False
    then have "\<not> (Version m \<in> set executed \<and> Version m > target)" by (simp add: assms(2))
    with Cons.prems(2) nodown have "rollbackLoop ex dir executed target ms d = (d', rolled, r)"
      by (simp split: if_splits)
    from Cons.IH [OF rest this] False show ?thesis by simp
  next
    case True
    then have cond: "Version m \<in> set executed \<and> Version m > target" by (simp add: assms(2))
    obtain d1 r1 where one: "rollbackOne ex dir (Version m) d = (d1, r1)"
      by (cases "rollbackOne ex dir (Version m) d")
    show ?thesis
    proof (cases r1)
      case (Some e)
      with one have "d1 = d" by (simp add: rollbackOne_error_unchanged)
      with Cons.prems(2) nodown cond one Some
      have "d' = d" "rolled = []" "r = Some e" by auto
      with True one Some \<open>d1 = d\<close> show ?thesis by auto
    next
      case None
      obtain d2 rolled2 r2 where loop: "rollbackLoop ex dir executed target ms d1 = (d2, rolled2, r2)"
        by (cases "rollbackLoop ex dir executed target ms d1")
      with Cons.prems(2) nodown cond one None
      have eq: "d2 = d'" "rolled = Version m # rolled2" "r2 = r" by auto
      from Cons.IH [OF rest loop] eq True show ?thesis by auto
    qed
  qed
qed

lemma rollbackLoop_ledger:
  assumes "preserves_ledger ex"
  shows "schema_migrations d = Some rows \<Longrightarrow> rollbackLoop ex dir executed target ms d = (d', rolled, r)
     \<Longrightarrow> schema_migrations d' = Some (filter (\<lambda>r. fst r \<notin> set rolled) rows)"
proof (induction ms arbitrary: d d' rolled r rows)
  case Nil
  then show ?case by simp
next
  case (Cons m ms)
  show ?case
  proof (cases "\<not> Contains (Version m) ''_down_'' \<and> Version m \<in> set executed \<and> Version m > target")
    case False
    with Cons.prems(2) have "rollbackLoop ex dir executed target ms d = (d', rolled, r)"
      by (auto split: if_splits)
    from Cons.IH [OF Cons.prems(1) this] show ?thesis .
  next
    case True
    obtain d1 r1 where one: "rollbackOne ex dir (Version m) d = (d1, r1)"
      by (cases "rollbackOne ex dir (Version m) d")
    show ?thesis
    proof (cases r1)
      case (Some e)
      with one have "d1 = d" by (simp add: rollbackOne_error_unchanged)
      with Cons.prems(2) True one Some have "d' = d" "rolled = []" by auto
      with Cons.prems(1) show ?thesis by simp
    next
      case None
      obtain d2 rolled2 r2 where loop: "rollbackLoop ex dir executed target ms d1 = (d2, rolled2, r2)"
        by (cases "rollbackLoop ex dir executed target ms d1")
      with Cons.prems(2) True one None
      have eq: "d2 = d'" "rolled = Version m # rolled2" "r2 = r" by auto
      have l1: "schema_migrations d1 = Some (filter (\<lambda>r. fst r \<noteq> Version m) rows)"
        using rollbackOne_ledger [OF assms Cons.prems(1)] one None by simp
      from Cons.IH [OF l1 loop] eq show ?thesis by (simp add: conj_commute)
    qed
  qed
qed

section \<open>The properties\<close>




text \<open>
  C2. If a pending script fails during \<open>RunMigrations\<close> (its SQL is rejected or its
  ledger row cannot be inserted) after the pending scripts before it succeeded, the failed
  transaction leaves the database exactly as the scripts before it left it, no later
  script is attempted, the run returns an error naming the failed version, and the ledger
  keeps the rows committed earlier in the run. With pending scripts 001, 002, 003 where
  002 fails, the ledger afterwards is exactly 001.
\<close>

theorem RunMigrations_failure_stops_run:
  assumes "loadMigrationFiles cs dir = Inr catalog"
    and "catalog = before @ m # later"
    and "Version m \<notin> set (applied_versions d)"
    and "runPending ex (applied_versions d) before (createMigrationsTable d) = (d1, att1, None)"
    and "executeMigration ex m d1 = (d2, Some x)"
  shows "d2 = d1
       \<and> RunMigrations cs ex dir d = (d1, att1 @ [m], Some (ExecuteMigrationFailed (Version m) x))
       \<and> att1 = pending (applied_versions d) before
       \<and> (preserves_ledger ex \<longrightarrow>
            schema_migrations d1 = Some (map backfill (ledger d) @ applied_rows att1))"
proof -
  have same: "d2 = d1" using assms(5) by (rule executeMigration_error_unchanged)
  have "runPending ex (applied_versions d) (m # later) d1
          = (d1, [m], Some (ExecuteMigrationFailed (Version m) x))"
    using assms(3,5) same by (simp add: isMigrationExecuted_def)
  then have "runPending ex (applied_versions d) catalog (createMigrationsTable d)
          = (d1, att1 @ [m], Some (ExecuteMigrationFailed (Version m) x))"
    using assms(2,4) by (simp add: runPending_append)
  then have run: "RunMigrations cs ex dir d = (d1, att1 @ [m], Some (ExecuteMigrationFailed (Version m) x))"
    using assms(1) by (simp add: RunMigrations_def getExecutedMigrations_create)
  have att: "att1 = pending (applied_versions d) before"
    using runPending_prefix [OF assms(4)] by simp
  have "schema_migrations d1 = Some (map backfill (ledger d) @ applied_rows att1)"
    if "preserves_ledger ex"
    using runPending_ledger [OF that createMigrationsTable_ledger assms(4)] by simp
  with same run att show ?thesis by simp
qed

theorem RunMigrations_failure_stops_run_witness:
  "\<exists>d' att. RunMigrations demo_cs demo_ex demo_dir_failing demo_db_empty
       = (d', att, Some (ExecuteMigrationFailed ''002_users'' MigrationSQLFailed))
     \<and> map Version att = [''001_init'', ''002_users'']
     \<and> schema_migrations d' = Some [(''001_init'', Some (demo_cs ''A''))]
     \<and> objects d' = [''A'']"
proof -
  define m1 where "m1 = \<lparr>Version = ''001_init'', Filename = ''001_init.sql'', SQLContent = ''A'',
                          Checksum = demo_cs ''A''\<rparr>"
  define m2 where "m2 = \<lparr>Version = ''002_users'', Filename = ''002_users.sql'', SQLContent = ''FAIL B'',
                          Checksum = demo_cs ''FAIL B''\<rparr>"
  define m3 where "m3 = \<lparr>Version = ''003_index'', Filename = ''003_index.sql'', SQLContent = ''C'',
                          Checksum = demo_cs ''C''\<rparr>"
  define d1 :: "string list database"
    where "d1 = \<lparr>schema_migrations = Some [(''001_init'', Some (demo_cs ''A''))], objects = [''A'']\<rparr>"
  have h1: "loadMigrationFiles demo_cs demo_dir_failing = Inr ([m1] @ m2 # [m3])"
    unfolding m1_def m2_def m3_def by code_simp
  have h2: "[m1] @ m2 # [m3] = [m1] @ m2 # [m3]" ..
  have h3: "Version m2 \<notin> set (applied_versions demo_db_empty)"
    by (simp add: applied_versions_def ledger_def demo_db_empty_def)
  have h4: "runPending demo_ex (applied_versions demo_db_empty) [m1] (createMigrationsTable demo_db_empty)
              = (d1, [m1], None)"
    unfolding m1_def d1_def by code_simp
  have h5: "executeMigration demo_ex m2 d1 = (d1, Some MigrationSQLFailed)"
    unfolding m2_def d1_def by code_simp
  from RunMigrations_failure_stops_run [OF h1 h2 h3 h4 h5]
  have "RunMigrations demo_cs demo_ex demo_dir_failing demo_db_empty
          = (d1, [m1] @ [m2], Some (ExecuteMigrationFailed (Version m2) MigrationSQLFailed))"
    by (elim conjE)
  then show ?thesis by (simp add: m1_def m2_def d1_def)
qed

text \<open>
  C3 (as the code has it). Every \<open>RunMigrations\<close> call whose catalog loads and whose apply
  loop does not fail, also one with nothing pending, then verifies the ledger: the rows
  are read in ascending version order; when all rows are in order the call succeeds; the
  first row that is not fails the call, with the orphaned-entry error naming its version
  when the catalog has no script of that version, and with the checksum-mismatch error
  naming its version when the recorded checksum is not the legacy sentinel and differs
  from the checksum of the script. The mismatch error carries the version only; the two
  checksums go to the log. So a script modified after it was applied makes the next call
  fail with the checksum-mismatch error of its version.
\<close>

theorem RunMigrations_verifies_ledger:
  assumes "loadMigrationFiles cs dir = Inr catalog"
    and "preserves_ledger ex"
    and "RunMigrations cs ex dir d = (d', att, r)"
    and "\<forall>v x. r \<noteq> Some (ExecuteMigrationFailed v x)"
  shows "\<exists>rows. scanRows (sort_key fst (ledger d')) = Inr rows
       \<and> (list_all (row_ok catalog) rows \<longrightarrow> r = None)
       \<and> (\<forall>pre x post. rows = pre @ x # post \<and> list_all (row_ok catalog) pre \<and> \<not> row_ok catalog x
             \<longrightarrow> r = Some (IntegrityFailed (row_error catalog x)))"
proof -
  from RunMigrations_unfold [OF assms(1,3)] obtain r0
    where rp: "runPending ex (applied_versions d) catalog (createMigrationsTable d) = (d', att, r0)"
      and ok: "r0 = None \<Longrightarrow> r = map_option IntegrityFailed
                  (case verifyMigrationIntegrity catalog d' of Inl e \<Rightarrow> Some e | Inr u \<Rightarrow> None)"
      and bad: "r0 \<noteq> None \<Longrightarrow> r = r0"
    by blast
  have r0: "r0 = None"
  proof (rule ccontr)
    assume "r0 \<noteq> None"
    then obtain e where e: "r0 = Some e" by auto
    with runPending_error_kind [of ex "applied_versions d" catalog "createMigrationsTable d" d' att e] rp
    obtain v x where "e = ExecuteMigrationFailed v x" by auto
    with bad e assms(4) show False by auto
  qed
  have led: "schema_migrations d' = Some (map backfill (ledger d) @ applied_rows att)"
    using runPending_ledger [OF assms(2) createMigrationsTable_ledger rp] r0 by simp
  then have led': "ledger d' = map backfill (ledger d) @ applied_rows att"
    by (simp add: ledger_def)
  have "\<forall>r \<in> set (sort_key fst (ledger d')). snd r \<noteq> None"
    by (auto simp: led' applied_rows_def backfill_def split: option.splits)
  then obtain rows where scan: "scanRows (sort_key fst (ledger d')) = Inr rows"
    using scanRows_total by blast
  have res: "r = map_option IntegrityFailed (case verifyRows catalog rows of Inl e \<Rightarrow> Some e | Inr u \<Rightarrow> None)"
    using ok [OF r0] scan led led' by (simp add: verifyMigrationIntegrity_def)
  have "r = None" if "list_all (row_ok catalog) rows"
    using that res by (simp add: verifyRows_ok [symmetric])
  moreover have "r = Some (IntegrityFailed (row_error catalog x))"
    if "rows = pre @ x # post" "list_all (row_ok catalog) pre" "\<not> row_ok catalog x" for pre x post
    using that res by (simp add: verifyRows_first)
  ultimately show ?thesis using scan by blast
qed

theorem RunMigrations_verifies_ledger_witness:
  "RunMigrations demo_cs demo_ex demo_dir_tampered demo_db
     = (demo_db, [], Some (IntegrityFailed (ChecksumMismatch ''001_init'')))"
proof -
  define catalog where "catalog =
    [\<lparr>Version = ''001_init'', Filename = ''001_init.sql'', SQLContent = ''A2'', Checksum = demo_cs ''A2''\<rparr>]"
  define r where "r = snd (snd (RunMigrations demo_cs demo_ex demo_dir_tampered demo_db))"
  have h1: "loadMigrationFiles demo_cs demo_dir_tampered = Inr catalog"
    unfolding catalog_def by code_simp
  have part: "fst (RunMigrations demo_cs demo_ex demo_dir_tampered demo_db) = demo_db"
    "fst (snd (RunMigrations demo_cs demo_ex demo_dir_tampered demo_db)) = []"
    by code_simp+
  then have run: "RunMigrations demo_cs demo_ex demo_dir_tampered demo_db = (demo_db, [], r)"
    unfolding r_def by (metis prod.collapse)
  have "(case r of Some (IntegrityFailed e) \<Rightarrow> True | _ \<Rightarrow> False)"
    unfolding r_def by code_simp
  then have h4: "\<forall>v x. r \<noteq> Some (ExecuteMigrationFailed v x)" by auto
  from RunMigrations_verifies_ledger [OF h1 preserves_ledger_demo_ex run h4]
  obtain rows where scan: "scanRows (sort_key fst (ledger demo_db)) = Inr rows"
    and first: "\<forall>pre x post. rows = pre @ x # post \<and> list_all (row_ok catalog) pre \<and> \<not> row_ok catalog x
             \<longrightarrow> r = Some (IntegrityFailed (row_error catalog x))"
    by blast
  have rows: "rows = [] @ (''001_init'', demo_cs ''A'') # []"
    using scan by (simp add: ledger_def demo_db_def)
  have nok: "\<not> row_ok catalog (''001_init'', demo_cs ''A'')"
    unfolding catalog_def by code_simp
  have "r = Some (IntegrityFailed (row_error catalog (''001_init'', demo_cs ''A'')))"
  proof -
    have "list_all (row_ok catalog) []" by simp
    with first rows nok show ?thesis by blast
  qed
  then have "r = Some (IntegrityFailed (ChecksumMismatch ''001_init''))"
    by (simp add: row_error_def catalog_def)
  with run show ?thesis by simp
qed

text \<open>
  C3 as stated does not hold. The checksum-mismatch error does not name the checksums: two
  calls that fail on the same version, with different recorded checksums and different
  current checksums, return the same error. And a row with a modified script does not
  make the call fail with the checksum-mismatch error when a row before it in version
  order is orphaned: the call fails with the orphaned-entry error of that row.
\<close>

theorem mismatch_error_omits_checksums:
  "snd (snd (RunMigrations demo_cs demo_ex demo_dir_tampered demo_db))
      = Some (IntegrityFailed (ChecksumMismatch ''001_init''))
   \<and> snd (snd (RunMigrations demo_cs demo_ex demo_dir demo_db_other))
      = Some (IntegrityFailed (ChecksumMismatch ''001_init''))
   \<and> demo_cs ''A'' \<noteq> demo_cs ''Z'' \<and> demo_cs ''A2'' \<noteq> demo_cs ''A''
   \<and> snd (snd (RunMigrations demo_cs demo_ex demo_dir_tampered demo_db_two_offenders))
      = Some (IntegrityFailed (NotInDirectory ''000_gone''))"
  by code_simp

text \<open>
  C4. The code at an input of the claim: the second seed migration is applied, it is
  greater than the target and its down script is in the directory, but its forward
  script is gone from the directory. \<open>RunDownMigrations\<close> takes its candidates from the
  catalog of forward scripts, so it returns success with nothing rolled back and the
  version still applied. At the same input \<open>RollbackLastMigration\<close>, which takes the
  version from the ledger, rolls that version back, and \<open>RunMigrations\<close> reports its row
  as orphaned.
\<close>

theorem RunDownMigrations_leaves_version_without_forward_file:
  "RunDownMigrations demo_cs demo_ex demo_orphan_dir ''001_create_schema_migrations_table'' demo_orphan_db
     = (demo_orphan_db, [], None)
   \<and> ''002_create_users_table'' \<in> set (applied_versions demo_orphan_db)
   \<and> ''002_create_users_table'' > ''001_create_schema_migrations_table''
   \<and> ReadFile demo_orphan_dir (downFilename demo_orphan_dir ''002_create_users_table'') = Some ''undo B''
   \<and> RollbackLastMigration demo_ex demo_orphan_dir demo_orphan_db
     = (\<lparr>schema_migrations = Some [(''001_create_schema_migrations_table'', Some (demo_cs ''A''))],
         objects = [''A'', ''B'', ''undo B'']\<rparr>, None)
   \<and> snd (snd (RunMigrations demo_cs demo_ex demo_orphan_dir demo_orphan_db))
     = Some (IntegrityFailed (NotInDirectory ''002_create_users_table''))"
  by code_simp

text \<open>
  The behaviour of \<open>RunDownMigrations\<close> on the catalog: it goes through the catalog in
  descending version order and rolls back, each in its own transaction, the catalog
  versions that are applied and greater than the target. The versions rolled back are a
  prefix of these, all of them when the call succeeds; when one fails the call stops
  there with the error, the failed transaction leaves the database as it found it, and
  the rows of the versions rolled back before, and only theirs, are gone from the ledger.
\<close>

theorem RunDownMigrations_descending_partial:
  assumes "ReadDir dir = Some es" and "distinct (map fst es)"
    and "loadMigrationFiles cs dir = Inr catalog"
    and "schema_migrations d = Some rows"
    and "RunDownMigrations cs ex dir target d = (d', rolled, r)"
  shows "prefix rolled (candidates (map fst rows) target catalog)
       \<and> sorted_wrt (>) rolled
       \<and> (r = None \<longrightarrow> rolled = candidates (map fst rows) target catalog)
       \<and> (r \<noteq> None \<longrightarrow>
            (\<exists>v. prefix (rolled @ [v]) (candidates (map fst rows) target catalog)
               \<and> rollbackOne ex dir v d' = (d', r)))
       \<and> (preserves_ledger ex \<longrightarrow>
            schema_migrations d' = Some (filter (\<lambda>r. fst r \<notin> set rolled) rows))"
proof -
  have loop: "rollbackLoop ex dir (map fst rows) target (rev catalog) d = (d', rolled, r)"
    using assms(3-5) by (simp add: RunDownMigrations_def getExecutedMigrations_def)
  have nodown: "\<forall>m \<in> set (rev catalog). \<not> Contains (Version m) ''_down_''"
    using loadMigrationFiles_no_down [OF assms(3)] by simp
  have main: "prefix rolled (candidates (map fst rows) target catalog)
       \<and> (r = None \<longrightarrow> rolled = candidates (map fst rows) target catalog)
       \<and> (r \<noteq> None \<longrightarrow>
            (\<exists>v. prefix (rolled @ [v]) (candidates (map fst rows) target catalog)
               \<and> rollbackOne ex dir v d' = (d', r)))"
    unfolding candidates_def using nodown refl loop by (rule rollbackLoop_candidates)
  have "sorted_wrt (<) (map Version catalog)"
    using assms(1-3) by (rule loadMigrationFiles_sorted)
  then have "sorted_wrt (>) (map Version (rev catalog))"
    by (simp add: rev_map [symmetric] sorted_wrt_rev)
  then have "sorted_wrt (>) (candidates (map fst rows) target catalog)"
    by (simp add: candidates_def sorted_wrt_map sorted_wrt_filter)
  with main have desc: "sorted_wrt (>) rolled" by (blast intro: sorted_wrt_prefix)
  have "schema_migrations d' = Some (filter (\<lambda>r. fst r \<notin> set rolled) rows)" if "preserves_ledger ex"
    using that assms(4) loop by (rule rollbackLoop_ledger)
  with main desc show ?thesis by blast
qed

theorem RunDownMigrations_descending_partial_witness:
  "RunDownMigrations demo_cs demo_ex demo_seed_dir ''001_create_schema_migrations_table'' demo_seed_db
     = (\<lparr>schema_migrations = Some [(''001_create_schema_migrations_table'', Some (demo_cs ''A''))],
         objects = [''A'', ''B'', ''C'', ''undo C'', ''undo B'']\<rparr>,
        [''003_create_indexes'', ''002_create_users_table''], None)
   \<and> sorted_wrt (>) [''003_create_indexes'', ''002_create_users_table'']
   \<and> RunDownMigrations demo_cs demo_ex demo_seed_dir_bad_down ''001_create_schema_migrations_table''
        demo_seed_db
     = (\<lparr>schema_migrations = Some [(''001_create_schema_migrations_table'', Some (demo_cs ''A'')),
                                   (''002_create_users_table'', Some (demo_cs ''B''))],
         objects = [''A'', ''B'', ''C'', ''undo C'']\<rparr>,
        [''003_create_indexes''], Some RollbackSQLFailed)"
proof -
  define catalog where "catalog =
    [\<lparr>Version = ''001_create_schema_migrations_table'', Filename = ''001_create_schema_migrations_table.sql'',
       SQLContent = ''A'', Checksum = demo_cs ''A''\<rparr>,
     \<lparr>Version = ''002_create_users_table'', Filename = ''002_create_users_table.sql'',
       SQLContent = ''B'', Checksum = demo_cs ''B''\<rparr>,
     \<lparr>Version = ''003_create_indexes'', Filename = ''003_create_indexes.sql'',
       SQLContent = ''C'', Checksum = demo_cs ''C''\<rparr>]"
  define es where "es = [(''001_create_schema_migrations_table.sql'', False),
                      (''001_down_create_schema_migrations_table.sql'', False),
                      (''002_create_users_table.sql'', False),
                      (''002_down_create_users_table.sql'', False),
                      (''003_create_indexes.sql'', False),
                      (''003_down_create_indexes.sql'', False)]"
  define rows where "rows = [(''001_create_schema_migrations_table'', Some (demo_cs ''A'')),
                                (''002_create_users_table'', Some (demo_cs ''B'')),
                                (''003_create_indexes'', Some (demo_cs ''C''))]"
  define d' :: "string list database" where "d' =
     \<lparr>schema_migrations = Some [(''001_create_schema_migrations_table'', Some (demo_cs ''A''))],
         objects = [''A'', ''B'', ''C'', ''undo C'', ''undo B'']\<rparr>"
  have h1: "ReadDir demo_seed_dir = Some es" by (simp add: demo_seed_dir_def es_def)
  have h1': "ReadDir demo_seed_dir_bad_down = Some es"
    by (simp add: demo_seed_dir_bad_down_def demo_seed_dir_def es_def)
  have h2: "distinct (map fst es)" by (simp add: es_def)
  have h3: "loadMigrationFiles demo_cs demo_seed_dir = Inr catalog"
    unfolding catalog_def by code_simp
  have h3': "loadMigrationFiles demo_cs demo_seed_dir_bad_down = Inr catalog"
    unfolding catalog_def by code_simp
  have h4: "schema_migrations demo_seed_db = Some rows" by (simp add: demo_seed_db_def rows_def)
  have h5: "RunDownMigrations demo_cs demo_ex demo_seed_dir ''001_create_schema_migrations_table'' demo_seed_db
     = (d', [''003_create_indexes'', ''002_create_users_table''], None)"
    unfolding d'_def by code_simp
  from RunDownMigrations_descending_partial [OF h1 h2 h3 h4 h5]
  have desc: "sorted_wrt (>) [''003_create_indexes'', ''002_create_users_table'']" by blast
  obtain d2 where h5': "RunDownMigrations demo_cs demo_ex demo_seed_dir_bad_down
        ''001_create_schema_migrations_table'' demo_seed_db = (d2, [''003_create_indexes''], Some RollbackSQLFailed)"
    and obj: "objects d2 = [''A'', ''B'', ''C'', ''undo C'']"
  proof
    show "RunDownMigrations demo_cs demo_ex demo_seed_dir_bad_down
        ''001_create_schema_migrations_table'' demo_seed_db
       = (fst (RunDownMigrations demo_cs demo_ex demo_seed_dir_bad_down
        ''001_create_schema_migrations_table'' demo_seed_db), [''003_create_indexes''], Some RollbackSQLFailed)"
      by code_simp
    show "objects (fst (RunDownMigrations demo_cs demo_ex demo_seed_dir_bad_down
        ''001_create_schema_migrations_table'' demo_seed_db)) = [''A'', ''B'', ''C'', ''undo C'']"
      by code_simp
  qed
  from RunDownMigrations_descending_partial [OF h1' h2 h3' h4 h5'] preserves_ledger_demo_ex
  have "schema_migrations d2 = Some (filter (\<lambda>r. fst r \<notin> set [''003_create_indexes'']) rows)"
    by blast
  then have "schema_migrations d2 = Some [(''001_create_schema_migrations_table'', Some (demo_cs ''A'')),
                                   (''002_create_users_table'', Some (demo_cs ''B''))]"
    by (simp add: rows_def)
  with obj have "d2 = \<lparr>schema_migrations = Some [(''001_create_schema_migrations_table'', Some (demo_cs ''A'')),
                                   (''002_create_users_table'', Some (demo_cs ''B''))],
         objects = [''A'', ''B'', ''C'', ''undo C'']\<rparr>"
    by (cases d2) simp
  with h5 h5' desc show ?thesis by (simp add: d'_def)
qed

text \<open>
  C5 (as the code has it). \<open>RollbackLastMigration\<close> on a ledger table without rows
  returns success and the database as it was; when the ledger table does not exist, as
  on a database that was never migrated, it fails with the error of the ledger query and
  the database as it was. On a ledger that is not empty it rolls back the greatest
  applied version under the string order (whatever the order in which the map is
  iterated): in one transaction it executes the down script of that version and deletes
  the row of that version. On every failure the database, the ledger included, is as it
  was.
\<close>

theorem RollbackLastMigration_table_greatest_atomic:
  assumes "RollbackLastMigration ex dir d = (d', r)"
  shows "(schema_migrations d = None \<longrightarrow> d' = d \<and> r = Some (GetExecutedFailed UndefinedTable))
       \<and> (schema_migrations d = Some rows \<longrightarrow>
             (rows = [] \<longrightarrow> d' = d \<and> r = None)
           \<and> (rows \<noteq> [] \<longrightarrow> rollbackOne ex dir (Max (set (map fst rows))) d = (d', r))
           \<and> (rows \<noteq> [] \<and> r = None \<longrightarrow>
                (\<exists>content d1 rows1.
                    ReadFile dir (downFilename dir (Max (set (map fst rows)))) = Some content
                  \<and> ex content d = Some d1 \<and> schema_migrations d1 = Some rows1
                  \<and> d' = d1\<lparr>schema_migrations :=
                             Some (filter (\<lambda>r. fst r \<noteq> Max (set (map fst rows))) rows1)\<rparr>)))
       \<and> (r \<noteq> None \<longrightarrow> d' = d)"
proof -
  have notable: "d' = d \<and> r = Some (GetExecutedFailed UndefinedTable)" if "schema_migrations d = None"
    using assms that by (simp add: RollbackLastMigration_def getExecutedMigrations_def)
  have empty: "d' = d \<and> r = None" if "schema_migrations d = Some []"
    using assms that by (simp add: RollbackLastMigration_def getExecutedMigrations_def)
  have one: "rollbackOne ex dir (Max (set (map fst rs))) d = (d', r)"
    if "schema_migrations d = Some rs" "rs \<noteq> []" for rs
    using assms that lastMigration_Max [of "map fst rs"]
    by (simp add: RollbackLastMigration_def getExecutedMigrations_def)
  have unchanged: "d' = d" if "r \<noteq> None"
  proof (cases "schema_migrations d")
    case None
    with notable show ?thesis by simp
  next
    case (Some rs)
    show ?thesis
    proof (cases "rs = []")
      case True
      with Some empty show ?thesis by simp
    next
      case False
      from one [OF Some False] that show ?thesis by (auto dest: rollbackOne_error_unchanged)
    qed
  qed
  have table: "(rows = [] \<longrightarrow> d' = d \<and> r = None)
           \<and> (rows \<noteq> [] \<longrightarrow> rollbackOne ex dir (Max (set (map fst rows))) d = (d', r))
           \<and> (rows \<noteq> [] \<and> r = None \<longrightarrow>
                (\<exists>content d1 rows1.
                    ReadFile dir (downFilename dir (Max (set (map fst rows)))) = Some content
                  \<and> ex content d = Some d1 \<and> schema_migrations d1 = Some rows1
                  \<and> d' = d1\<lparr>schema_migrations :=
                             Some (filter (\<lambda>r. fst r \<noteq> Max (set (map fst rows))) rows1)\<rparr>))"
    if t: "schema_migrations d = Some rows"
  proof (cases "rows = []")
    case True
    with empty t show ?thesis by simp
  next
    case False
    from one [OF t False] have o: "rollbackOne ex dir (Max (set (map fst rows))) d = (d', r)" .
    then have "r = None \<longrightarrow> (\<exists>content d1 rows1.
                    ReadFile dir (downFilename dir (Max (set (map fst rows)))) = Some content
                  \<and> ex content d = Some d1 \<and> schema_migrations d1 = Some rows1
                  \<and> d' = d1\<lparr>schema_migrations :=
                             Some (filter (\<lambda>r. fst r \<noteq> Max (set (map fst rows))) rows1)\<rparr>)"
      by (auto simp: rollbackOne_success)
    with False o show ?thesis by simp
  qed
  from notable table unchanged show ?thesis by blast
qed

theorem RollbackLastMigration_table_greatest_atomic_witness:
  "RollbackLastMigration demo_ex demo_seed_dir demo_seed_db
     = (\<lparr>schema_migrations = Some [(''001_create_schema_migrations_table'', Some (demo_cs ''A'')),
                                   (''002_create_users_table'', Some (demo_cs ''B''))],
         objects = [''A'', ''B'', ''C'', ''undo C'']\<rparr>, None)
   \<and> Max (set (applied_versions demo_seed_db)) = ''003_create_indexes''
   \<and> RollbackLastMigration demo_ex_drop demo_seed_dir demo_first_db
     = (demo_first_db, Some (RemoveTrackingFailed UndefinedTable))
   \<and> RollbackLastMigration demo_ex demo_seed_dir (createMigrationsTable demo_db_empty)
     = (createMigrationsTable demo_db_empty, None)
   \<and> RollbackLastMigration demo_ex demo_seed_dir demo_db_empty
     = (demo_db_empty, Some (GetExecutedFailed UndefinedTable))"
proof -
  define d' :: "string list database" where "d' =
     \<lparr>schema_migrations = Some [(''001_create_schema_migrations_table'', Some (demo_cs ''A'')),
                                   (''002_create_users_table'', Some (demo_cs ''B''))],
         objects = [''A'', ''B'', ''C'', ''undo C'']\<rparr>"
  define rows where "rows = [(''001_create_schema_migrations_table'', Some (demo_cs ''A'')),
                                (''002_create_users_table'', Some (demo_cs ''B'')),
                                (''003_create_indexes'', Some (demo_cs ''C''))]"
  have h1: "schema_migrations demo_seed_db = Some rows"
    by (simp add: demo_seed_db_def rows_def)
  have h2: "RollbackLastMigration demo_ex demo_seed_dir demo_seed_db = (d', None)"
    unfolding d'_def by code_simp
  have ne: "rows \<noteq> []" by (simp add: rows_def)
  from RollbackLastMigration_table_greatest_atomic [OF h2, of rows] h1 ne
  have one: "rollbackOne demo_ex demo_seed_dir (Max (set (map fst rows))) demo_seed_db = (d', None)"
    by blast
  have "rollbackOne demo_ex demo_seed_dir ''001_create_schema_migrations_table'' demo_seed_db \<noteq> (d', None)"
       "rollbackOne demo_ex demo_seed_dir ''002_create_users_table'' demo_seed_db \<noteq> (d', None)"
    unfolding d'_def by code_simp+
  moreover have "Max (set (map fst rows)) \<in> set (map fst rows)"
    using ne by (intro Max_in) auto
  ultimately have greatest: "Max (set (map fst rows)) = ''003_create_indexes''"
    using one by (auto simp: rows_def)
  obtain d2 r2 where run2: "RollbackLastMigration demo_ex_drop demo_seed_dir demo_first_db = (d2, r2)"
    by (cases "RollbackLastMigration demo_ex_drop demo_seed_dir demo_first_db")
  have "snd (RollbackLastMigration demo_ex_drop demo_seed_dir demo_first_db)
          = Some (RemoveTrackingFailed UndefinedTable)"
    by code_simp
  with run2 have r2: "r2 = Some (RemoveTrackingFailed UndefinedTable)" by simp
  from RollbackLastMigration_table_greatest_atomic [OF run2, of "[]"] r2
  have "d2 = demo_first_db" by blast
  with run2 r2 have failing: "RollbackLastMigration demo_ex_drop demo_seed_dir demo_first_db
     = (demo_first_db, Some (RemoveTrackingFailed UndefinedTable))" by simp
  obtain d3 r3 where run3:
    "RollbackLastMigration demo_ex demo_seed_dir (createMigrationsTable demo_db_empty) = (d3, r3)"
    by (cases "RollbackLastMigration demo_ex demo_seed_dir (createMigrationsTable demo_db_empty)")
  have h4: "schema_migrations (createMigrationsTable demo_db_empty) = Some []"
    by (simp add: createMigrationsTable_def demo_db_empty_def)
  from RollbackLastMigration_table_greatest_atomic [OF run3, of "[]"] h4
  have "d3 = createMigrationsTable demo_db_empty \<and> r3 = None" by blast
  with run3 have empty: "RollbackLastMigration demo_ex demo_seed_dir (createMigrationsTable demo_db_empty)
     = (createMigrationsTable demo_db_empty, None)" by simp
  obtain d4 r4 where run4: "RollbackLastMigration demo_ex demo_seed_dir demo_db_empty = (d4, r4)"
    by (cases "RollbackLastMigration demo_ex demo_seed_dir demo_db_empty")
  have h5: "schema_migrations demo_db_empty = None" by (simp add: demo_db_empty_def)
  from RollbackLastMigration_table_greatest_atomic [OF run4, of "[]"] h5
  have "d4 = demo_db_empty \<and> r4 = Some (GetExecutedFailed UndefinedTable)" by blast
  with run4 have notable: "RollbackLastMigration demo_ex demo_seed_dir demo_db_empty
     = (demo_db_empty, Some (GetExecutedFailed UndefinedTable))" by simp
  from greatest h2 failing empty notable show ?thesis
    by (simp add: d'_def applied_versions_def ledger_def demo_seed_db_def rows_def)
qed

text \<open>
  C5 as stated does not hold on a database without the ledger table: nothing is applied,
  yet \<open>RollbackLastMigration\<close> returns the error of the ledger query instead of success.
\<close>

theorem RollbackLastMigration_fails_without_ledger_table:
  "applied_versions demo_db_empty = []
   \<and> RollbackLastMigration demo_ex demo_seed_dir demo_db_empty
       = (demo_db_empty, Some (GetExecutedFailed UndefinedTable))"
  by code_simp

text \<open>
  C6. \<open>RunMigrations\<close> is idempotent: after a call that succeeded, a second call over the
  same directory executes no script and returns the database, ledger included, exactly
  as the first call left it. The scripts are assumed not to write the ledger table.
\<close>

theorem RunMigrations_idempotent:
  assumes "preserves_ledger ex"
    and "RunMigrations cs ex dir d = (d1, att, None)"
  shows "RunMigrations cs ex dir d1 = (d1, [], None)"
proof -
  obtain catalog where load: "loadMigrationFiles cs dir = Inr catalog"
    using assms(2) by (cases "loadMigrationFiles cs dir") (auto simp: RunMigrations_def Let_def)
  from RunMigrations_unfold [OF load assms(2)]
  have rp: "runPending ex (applied_versions d) catalog (createMigrationsTable d) = (d1, att, None)"
    and ver: "verifyMigrationIntegrity catalog d1 = Inr ()"
    by (auto split: sum.splits)
  have att: "att = pending (applied_versions d) catalog"
    using runPending_prefix [OF rp] by simp
  have led: "schema_migrations d1 = Some (map backfill (ledger d) @ applied_rows att)"
    using runPending_ledger [OF assms(1) createMigrationsTable_ledger rp] by simp
  then have fixed: "createMigrationsTable d1 = d1"
    by (rule createMigrationsTable_fixed) (simp add: backfill_idem backfill_applied_rows)
  have "applied_versions d1 = applied_versions d @ map Version att"
    using led by (simp add: applied_versions_def ledger_def fst_backfill comp_def applied_rows_def)
  then have "\<forall>m \<in> set catalog. Version m \<in> set (applied_versions d1)"
    by (auto simp: att pending_def)
  then have "runPending ex (applied_versions d1) catalog d1 = (d1, [], None)"
    by (rule runPending_nothing_pending)
  then show ?thesis
    using load ver fixed getExecutedMigrations_create [of d1]
    by (simp add: RunMigrations_def)
qed

theorem RunMigrations_idempotent_witness:
  "\<exists>d1 att. RunMigrations demo_cs demo_ex demo_dir demo_db = (d1, att, None)
     \<and> att \<noteq> [] \<and> RunMigrations demo_cs demo_ex demo_dir d1 = (d1, [], None)"
proof -
  define catalog where "catalog =
    [\<lparr>Version = ''001_init'', Filename = ''001_init.sql'', SQLContent = ''A'', Checksum = demo_cs ''A''\<rparr>,
     \<lparr>Version = ''002_users'', Filename = ''002_users.sql'', SQLContent = ''B'', Checksum = demo_cs ''B''\<rparr>,
     \<lparr>Version = ''003_index'', Filename = ''003_index.sql'', SQLContent = ''C'', Checksum = demo_cs ''C''\<rparr>]"
  define d1 where "d1 =
     \<lparr>schema_migrations = Some [(''001_init'', Some (demo_cs ''A'')), (''002_users'', Some (demo_cs ''B'')),
               (''003_index'', Some (demo_cs ''C''))], objects = [''A'', ''B'', ''C'']\<rparr>"
  have h: "RunMigrations demo_cs demo_ex demo_dir demo_db = (d1, drop 1 catalog, None)"
    unfolding catalog_def d1_def by code_simp
  from RunMigrations_idempotent [OF preserves_ledger_demo_ex h] h
  show ?thesis by (auto simp: catalog_def)
qed

text \<open>
  C7. A ledger row whose checksum is the sentinel \<open>legacy_migration_no_checksum_available\<close>
  never makes \<open>verifyMigrationIntegrity\<close> fail with a checksum mismatch for its version,
  whatever the checksum of the catalog script (versions are unique in the ledger, the
  column being the primary key).
\<close>

theorem legacy_row_never_mismatch:
  assumes "schema_migrations d = Some rows" and "distinct (map fst rows)"
    and "(v, Some legacy) \<in> set rows"
  shows "verifyMigrationIntegrity catalog d \<noteq> Inl (ChecksumMismatch v)"
proof
  assume bad: "verifyMigrationIntegrity catalog d = Inl (ChecksumMismatch v)"
  then obtain xs where scan: "scanRows (sort_key fst rows) = Inr xs"
    and ver: "verifyRows catalog xs = Inl (ChecksumMismatch v)"
    using assms(1) by (auto simp: verifyMigrationIntegrity_def split: sum.splits)
  from verifyRows_mismatch [OF ver] obtain c where c: "(v, c) \<in> set xs" "c \<noteq> legacy" by blast
  have "set (sort_key fst rows) = set rows" by simp
  with scanRows_rows [OF scan] c(1) have "(v, Some c) \<in> set rows" by force
  with assms(2,3) have "Some c = Some legacy"
    by (meson eq_key_imp_eq_value)
  with c(2) show False by simp
qed

theorem legacy_row_never_mismatch_witness:
  "verifyMigrationIntegrity
      [\<lparr>Version = ''001_init'', Filename = ''001_init.sql'', SQLContent = ''A2'', Checksum = demo_cs ''A2''\<rparr>]
      \<lparr>schema_migrations = Some [(''001_init'', Some legacy)], objects = [''A'']\<rparr>
     \<noteq> Inl (ChecksumMismatch ''001_init'')
   \<and> verifyMigrationIntegrity
      [\<lparr>Version = ''001_init'', Filename = ''001_init.sql'', SQLContent = ''A2'', Checksum = demo_cs ''A2''\<rparr>]
      \<lparr>schema_migrations = Some [(''001_init'', Some legacy)], objects = [''A'']\<rparr> = Inr ()"
proof -
  let ?d = "\<lparr>schema_migrations = Some [(''001_init'', Some legacy)], objects = [''A'']\<rparr>"
  have h1: "schema_migrations ?d = Some [(''001_init'', Some legacy)]" by simp
  have h2: "distinct (map fst [(''001_init'', Some legacy)])" by simp
  have h3: "(''001_init'', Some legacy) \<in> set [(''001_init'', Some legacy)]" by simp
  have ok: "verifyMigrationIntegrity
      [\<lparr>Version = ''001_init'', Filename = ''001_init.sql'', SQLContent = ''A2'', Checksum = demo_cs ''A2''\<rparr>]
      ?d = Inr ()"
    by (simp add: verifyMigrationIntegrity_def)
  from legacy_row_never_mismatch [OF h1 h2 h3] ok show ?thesis by simp
qed

text \<open>
  C8. The code at the input of the claim: the migration \<open>004_add_email\<close> is applied and
  its down script \<open>004_down_add_email.sql\<close> is in the directory. The scan looks for a name
  that contains \<open>_down_\<close> and the whole version \<open>004_add_email\<close>; the down script by
  convention does not contain the version, so the resolution falls back to
  \<open>004_add_email_down.sql\<close>, which does not exist, and both rollbacks fail reading it. The
  seed versions are resolved by the same convention.
\<close>

theorem down_script_by_convention_not_found:
  "downFilename demo_convention_dir ''004_add_email'' = ''004_add_email_down.sql''
   \<and> ReadFile demo_convention_dir ''004_down_add_email.sql'' = Some ''undo D''
   \<and> RollbackLastMigration demo_ex demo_convention_dir demo_convention_db
       = (demo_convention_db, Some (ReadRollbackFileFailed ''004_add_email_down.sql''))
   \<and> RunDownMigrations demo_cs demo_ex demo_convention_dir ''003_create_indexes'' demo_convention_db
       = (demo_convention_db, [], Some (ReadRollbackFileFailed ''004_add_email_down.sql''))
   \<and> downFilename demo_seed_dir ''002_create_users_table'' = ''002_down_create_users_table.sql''"
  by code_simp

text \<open>
  C9. The ledger insert of \<open>executeMigration\<close> fails with a unique violation when a row of
  that version is present, and \<open>executeMigration\<close> then returns the error and the
  database it started from: the existing row is not overwritten.
\<close>

theorem duplicate_version_rejected:
  assumes "ex (SQLContent m) d = Some d1" and "schema_migrations d1 = Some rows"
    and "Version m \<in> set (map fst rows)"
  shows "insert_row (Version m) (Checksum m) d1 = Inl UniqueViolation
       \<and> executeMigration ex m d = (d, Some (RecordFailed UniqueViolation))"
  using assms
  by (simp add: insert_row_def executeMigration_def Begin_def Rollback_def tx_exec_def tx_insert_def)

theorem duplicate_version_rejected_witness:
  "executeMigration demo_ex
      \<lparr>Version = ''001_init'', Filename = ''001_init.sql'', SQLContent = ''A2'', Checksum = demo_cs ''A2''\<rparr>
      demo_db = (demo_db, Some (RecordFailed UniqueViolation))
   \<and> schema_migrations demo_db = Some [(''001_init'', Some (demo_cs ''A''))]"
proof -
  let ?m = "\<lparr>Version = ''001_init'', Filename = ''001_init.sql'', SQLContent = ''A2'', Checksum = demo_cs ''A2''\<rparr>"
  have h1: "demo_ex (SQLContent ?m) demo_db = Some (demo_db\<lparr>objects := [''A'', ''A2'']\<rparr>)"
    by (simp add: demo_ex_def demo_db_def)
  have h2: "schema_migrations (demo_db\<lparr>objects := [''A'', ''A2'']\<rparr>) = Some [(''001_init'', Some (demo_cs ''A''))]"
    by (simp add: demo_db_def)
  have h3: "Version ?m \<in> set (map fst [(''001_init'', Some (demo_cs ''A''))])" by simp
  from duplicate_version_rejected
         [of demo_ex ?m demo_db "demo_db\<lparr>objects := [''A'', ''A2'']\<rparr>"
             "[(''001_init'', Some (demo_cs ''A''))]", OF h1 h2 h3]
  show ?thesis by (simp add: demo_db_def)
qed

text \<open>
  C10. The catalog that \<open>loadMigrationFiles\<close> returns has exactly the entries of the
  directory that are not directories, end in \<open>.sql\<close> and do not contain \<open>_down_\<close>,
  whatever the form of their prefix; the version of each is its file name without the
  suffix \<open>.sql\<close>. In particular a file \<open><version>_down.sql\<close> (a name without \<open>_down_\<close>),
  which is the fallback name the rollbacks read, is a catalog entry of version
  \<open><version>_down\<close>, and \<open>RunMigrations\<close> executes it forward when it is not applied yet
  and no script fails.
\<close>

theorem loadMigrationFiles_forward_catalog:
  assumes "ReadDir dir = Some es" and "loadMigrationFiles cs dir = Inr catalog"
  shows "set (map Filename catalog) = fst ` {e \<in> set es. forward_entry e}
       \<and> (\<forall>m \<in> set catalog. Version m = TrimSuffix (Filename m) ''.sql''
             \<and> ReadFile dir (Filename m) = Some (SQLContent m) \<and> Checksum m = cs (SQLContent m))
       \<and> ((v @ ''_down.sql'', False) \<in> set es \<and> \<not> Contains (v @ ''_down.sql'') ''_down_'' \<longrightarrow>
            (\<exists>m \<in> set catalog. Filename m = v @ ''_down.sql'' \<and> Version m = v @ ''_down''
               \<and> (RunMigrations cs ex dir d = (d', att, r)
                    \<and> (\<forall>w x. r \<noteq> Some (ExecuteMigrationFailed w x))
                    \<and> v @ ''_down'' \<notin> set (applied_versions d) \<longrightarrow> m \<in> set att)))"
proof -
  from assms obtain ms where ms: "loadEntries cs (ReadFile dir) es = Inr ms"
    and cat: "catalog = sort_key Version ms"
    by (auto simp: loadMigrationFiles_def split: sum.splits)
  have names: "set (map Filename catalog) = fst ` {e \<in> set es. forward_entry e}"
  proof -
    have "set (map Filename catalog) = set (map Filename ms)" by (simp add: cat)
    also have "\<dots> = set (map fst (filter forward_entry es))"
      by (simp only: loadEntries_Filename [OF ms])
    also have "\<dots> = fst ` {e \<in> set es. forward_entry e}" by auto
    finally show ?thesis .
  qed
  have fields: "\<forall>m \<in> set catalog. Version m = TrimSuffix (Filename m) ''.sql''
             \<and> ReadFile dir (Filename m) = Some (SQLContent m) \<and> Checksum m = cs (SQLContent m)"
    using loadEntries_fields [OF ms] by (simp add: cat)
  have particular: "\<exists>m \<in> set catalog. Filename m = v @ ''_down.sql'' \<and> Version m = v @ ''_down''
               \<and> (RunMigrations cs ex dir d = (d', att, r)
                    \<and> (\<forall>w x. r \<noteq> Some (ExecuteMigrationFailed w x))
                    \<and> v @ ''_down'' \<notin> set (applied_versions d) \<longrightarrow> m \<in> set att)"
    if entry: "(v @ ''_down.sql'', False) \<in> set es" and nodown: "\<not> Contains (v @ ''_down.sql'') ''_down_''"
  proof -
    have "HasSuffix (v @ ''_down.sql'') ''.sql''"
      using HasSuffix_append_same [of "v @ ''_down''" "''.sql''"] by simp
    with entry nodown have "(v @ ''_down.sql'', False) \<in> {e \<in> set es. forward_entry e}"
      by (simp add: forward_entry_def)
    then have "v @ ''_down.sql'' \<in> fst ` {e \<in> set es. forward_entry e}" by force
    with names have "v @ ''_down.sql'' \<in> set (map Filename catalog)" by simp
    then obtain m where m: "m \<in> set catalog" "Filename m = v @ ''_down.sql''" by auto
    have "Version m = TrimSuffix ((v @ ''_down'') @ ''.sql'') ''.sql''"
      using fields m by simp
    then have ver: "Version m = v @ ''_down''" by (simp only: TrimSuffix_append_same)
    have "m \<in> set att"
      if "RunMigrations cs ex dir d = (d', att, r)" "\<forall>w x. r \<noteq> Some (ExecuteMigrationFailed w x)"
         "v @ ''_down'' \<notin> set (applied_versions d)"
    proof -
      have "att = pending (applied_versions d) catalog"
        using assms(2) that(1,2) by (rule RunMigrations_attempts_all_pending)
      with m(1) ver that(3) show ?thesis by (simp add: pending_def)
    qed
    with m ver show ?thesis by blast
  qed
  from names fields particular show ?thesis by blast
qed

theorem loadMigrationFiles_forward_catalog_witness:
  "loadMigrationFiles demo_cs demo_fallback_dir =
     Inr [\<lparr>Version = ''004_add_email'', Filename = ''004_add_email.sql'', SQLContent = ''D'',
           Checksum = demo_cs ''D''\<rparr>,
          \<lparr>Version = ''004_add_email_down'', Filename = ''004_add_email_down.sql'',
           SQLContent = ''undo D'', Checksum = demo_cs ''undo D''\<rparr>]
   \<and> downFilename demo_fallback_dir ''004_add_email'' = ''004_add_email_down.sql''
   \<and> (\<exists>d' att. RunMigrations demo_cs demo_ex demo_fallback_dir demo_db_empty = (d', att, None)
         \<and> ''004_add_email_down'' \<in> set (map Version att)
         \<and> objects d' = [''D'', ''undo D''])"
proof -
  define m1 where "m1 = \<lparr>Version = ''004_add_email'', Filename = ''004_add_email.sql'', SQLContent = ''D'',
           Checksum = demo_cs ''D''\<rparr>"
  define m2 where "m2 = \<lparr>Version = ''004_add_email_down'', Filename = ''004_add_email_down.sql'',
           SQLContent = ''undo D'', Checksum = demo_cs ''undo D''\<rparr>"
  define d' :: "string list database" where "d' =
     \<lparr>schema_migrations = Some [(''004_add_email'', Some (demo_cs ''D'')),
                                (''004_add_email_down'', Some (demo_cs ''undo D''))],
      objects = [''D'', ''undo D'']\<rparr>"
  have h1: "ReadDir demo_fallback_dir
              = Some [(''004_add_email.sql'', False), (''004_add_email_down.sql'', False)]"
    by (simp add: demo_fallback_dir_def)
  have h2: "loadMigrationFiles demo_cs demo_fallback_dir = Inr [m1, m2]"
    unfolding m1_def m2_def by code_simp
  have run: "RunMigrations demo_cs demo_ex demo_fallback_dir demo_db_empty = (d', [m1, m2], None)"
    unfolding m1_def m2_def d'_def by code_simp
  have e: "(''004_add_email'' @ ''_down.sql'', False)
              \<in> set [(''004_add_email.sql'', False), (''004_add_email_down.sql'', False)]"
    by simp
  have n: "\<not> Contains (''004_add_email'' @ ''_down.sql'') ''_down_''" by code_simp
  have a: "''004_add_email'' @ ''_down'' \<notin> set (applied_versions demo_db_empty)"
    by (simp add: applied_versions_def ledger_def demo_db_empty_def)
  note loadMigrationFiles_forward_catalog
         [OF h1 h2, of "''004_add_email''" demo_ex demo_db_empty d' "[m1, m2]" None,
          THEN conjunct2, THEN conjunct2, THEN mp, OF conjI [OF e n]]
  then obtain m where ver: "Version m = ''004_add_email'' @ ''_down''"
    and imp: "RunMigrations demo_cs demo_ex demo_fallback_dir demo_db_empty = (d', [m1, m2], None)
                \<and> (\<forall>w x. None \<noteq> Some (ExecuteMigrationFailed w x))
                \<and> ''004_add_email'' @ ''_down'' \<notin> set (applied_versions demo_db_empty)
              \<longrightarrow> m \<in> set [m1, m2]"
    by blast
  from imp run a have "m \<in> set [m1, m2]" by blast
  with ver have "''004_add_email'' @ ''_down'' \<in> set (map Version [m1, m2])"
    by (metis image_eqI set_map)
  then have "''004_add_email_down'' \<in> set (map Version [m1, m2])" by simp
  moreover have "downFilename demo_fallback_dir ''004_add_email'' = ''004_add_email_down.sql''"
    by code_simp
  ultimately show ?thesis using h2 run by (simp add: m1_def m2_def d'_def)
qed

end
